theory Spec2Isabelle
  imports Complex_Main "HOL-Library.Word" "HOL-Library.Log_Nat"
begin

section \<open>Machine arithmetic of the target board\<close>

text \<open>
  The sketches run on a 32-bit board (Seeed XIAO ESP32-C6): \<^verbatim>\<open>unsigned long\<close> is a 32-bit
  word whose arithmetic wraps, \<^verbatim>\<open>float\<close> is IEEE 754 binary32 and \<^verbatim>\<open>double\<close> is binary64.

  A floating-point datum is kept as the standard describes it: a sign and a magnitude
  (so both zeros exist), an infinity with its sign, or a NaN. Every arithmetic operation
  computes the exact rational result and rounds it to the destination format, to nearest
  with ties to the even significand.
\<close>

type_synonym ulong = "32 word"

datatype fp = Finite bool rat | Infinity bool | NaN

datatype format = Format (prec: nat) (emin: int) (emax: int)

definition binary32 :: format where
  "binary32 = Format 24 (- 149) 128"

definition binary64 :: format where
  "binary64 = Format 53 (- 1074) 1024"

text \<open>The signed value of a finite datum.\<close>

definition sval :: "bool \<Rightarrow> rat \<Rightarrow> rat" where
  "sval s m = (if s then - m else m)"

text \<open>\<open>ilog2 x\<close> is the binade of a positive \<open>x\<close>: \<open>2 powi ilog2 x \<le> x < 2 powi (ilog2 x + 1)\<close>.\<close>

definition ilog2 :: "rat \<Rightarrow> int" where
  "ilog2 x = (if 1 \<le> x then bitlen \<lfloor>x\<rfloor> - 1 else - bitlen (\<lceil>1 / x\<rceil> - 1))"

text \<open>Rounding to the nearest integer, a tie going to the even one.\<close>

definition rhe :: "rat \<Rightarrow> int" where
  "rhe x = (let f = \<lfloor>x\<rfloor>; d = x - of_int f in
     if d < 1 / 2 then f else if 1 / 2 < d then f + 1 else if even f then f else f + 1)"

text \<open>
  The exponent of the last place of the format at magnitude \<open>x\<close>: \<open>prec\<close> significant
  bits, but never below the subnormal spacing \<open>2 powi emin\<close>.
\<close>

definition grid :: "format \<Rightarrow> rat \<Rightarrow> int" where
  "grid f x = max (emin f) (ilog2 x - (int (prec f) - 1))"

definition rnd_mag :: "format \<Rightarrow> rat \<Rightarrow> rat" where
  "rnd_mag f x = (let e = grid f x in of_int (rhe (x / 2 powi e)) * 2 powi e)"

text \<open>Rounding a magnitude with its sign; a rounded magnitude of \<open>2 powi emax\<close> or more overflows.\<close>

definition round_to :: "format \<Rightarrow> bool \<Rightarrow> rat \<Rightarrow> fp" where
  "round_to f s x = (let r = rnd_mag f x in if 2 powi (emax f) \<le> r then Infinity s else Finite s r)"

fun fmul :: "format \<Rightarrow> fp \<Rightarrow> fp \<Rightarrow> fp" where
  "fmul f (Finite s m) (Finite t n) = round_to f (s \<noteq> t) (m * n)"
| "fmul f (Finite s m) (Infinity t) = (if m = 0 then NaN else Infinity (s \<noteq> t))"
| "fmul f (Infinity s) (Finite t n) = (if n = 0 then NaN else Infinity (s \<noteq> t))"
| "fmul f (Infinity s) (Infinity t) = Infinity (s \<noteq> t)"
| "fmul f _ _ = NaN"

fun fdiv :: "format \<Rightarrow> fp \<Rightarrow> fp \<Rightarrow> fp" where
  "fdiv f (Finite s m) (Finite t n) =
     (if n = 0 then (if m = 0 then NaN else Infinity (s \<noteq> t))
      else round_to f (s \<noteq> t) (m / n))"
| "fdiv f (Finite s m) (Infinity t) = Finite (s \<noteq> t) 0"
| "fdiv f (Infinity s) (Finite t n) = Infinity (s \<noteq> t)"
| "fdiv f _ _ = NaN"

fun fadd :: "format \<Rightarrow> fp \<Rightarrow> fp \<Rightarrow> fp" where
  "fadd f (Finite s m) (Finite t n) =
     (let v = sval s m + sval t n in
      if v = 0 then Finite (s \<and> t) 0 else round_to f (v < 0) \<bar>v\<bar>)"
| "fadd f (Finite s m) (Infinity t) = Infinity t"
| "fadd f (Infinity s) (Finite t n) = Infinity s"
| "fadd f (Infinity s) (Infinity t) = (if s = t then Infinity s else NaN)"
| "fadd f _ _ = NaN"

text \<open>The comparisons of C: every comparison with a NaN is false; the two zeros are equal.\<close>

fun fp_lt :: "fp \<Rightarrow> fp \<Rightarrow> bool" where
  "fp_lt (Finite s m) (Finite t n) = (sval s m < sval t n)"
| "fp_lt (Finite s m) (Infinity t) = (\<not> t)"
| "fp_lt (Infinity s) (Finite t n) = s"
| "fp_lt (Infinity s) (Infinity t) = (s \<and> \<not> t)"
| "fp_lt _ _ = False"

fun fp_le :: "fp \<Rightarrow> fp \<Rightarrow> bool" where
  "fp_le (Finite s m) (Finite t n) = (sval s m \<le> sval t n)"
| "fp_le (Finite s m) (Infinity t) = (\<not> t)"
| "fp_le (Infinity s) (Finite t n) = s"
| "fp_le (Infinity s) (Infinity t) = (if t then s else True)"
| "fp_le _ _ = False"

definition fp_gt :: "fp \<Rightarrow> fp \<Rightarrow> bool" where
  "fp_gt a b = fp_lt b a"

fun fp_eq :: "fp \<Rightarrow> fp \<Rightarrow> bool" where
  "fp_eq (Finite s m) (Finite t n) = (sval s m = sval t n)"
| "fp_eq (Infinity s) (Infinity t) = (s = t)"
| "fp_eq _ _ = False"

text \<open>Conversions: an unsigned integer to a floating format, and between formats.\<close>

definition of_ulong :: "format \<Rightarrow> ulong \<Rightarrow> fp" where
  "of_ulong f w = round_to f False (of_nat (unat w))"

fun fcast :: "format \<Rightarrow> fp \<Rightarrow> fp" where
  "fcast f (Finite s m) = round_to f s m"
| "fcast f x = x"

text \<open>
  A datum belongs to a format when rounding leaves it alone (the magnitude is a multiple
  of its last place, and below the overflow threshold).
\<close>

fun is_fp :: "format \<Rightarrow> fp \<Rightarrow> bool" where
  "is_fp f (Finite s m) = (0 \<le> m \<and> round_to f s m = Finite s m)"
| "is_fp f x = True"

fun is_nan :: "fp \<Rightarrow> bool" where
  "is_nan NaN = True"
| "is_nan x = False"

fun is_finite :: "fp \<Rightarrow> bool" where
  "is_finite (Finite s m) = True"
| "is_finite x = False"

fun is_zero :: "fp \<Rightarrow> bool" where
  "is_zero (Finite s m) = (m = 0)"
| "is_zero x = False"

definition zero :: fp where
  "zero = Finite False 0"

section \<open>The sketches\<close>

subsection \<open>Global variables\<close>

text \<open>
  All three sketches (\<^verbatim>\<open>flow_control.ino\<close> and the two earlier versions kept in
  \<^verbatim>\<open>part_000\<close>) declare the same globals with the same initial values.
  Console output (\<^verbatim>\<open>Serial.print\<close>) changes none of them and is left out.
\<close>

record sketch =
  pulseCount :: ulong
  lastTime :: ulong
  flowRate :: fp
  totalVolume :: fp
  calibrationFactor :: fp

definition ML_PER_PULSE :: fp where
  "ML_PER_PULSE = Finite False (9 / 4)"

definition globals :: sketch where
  "globals = \<lparr>pulseCount = 0, lastTime = 0, flowRate = zero, totalVolume = zero,
     calibrationFactor = Finite False 5\<rparr>"

text \<open>The interrupt handler, shared by all versions.\<close>

definition pulseCounter :: "'a sketch_scheme \<Rightarrow> 'a sketch_scheme" where
  "pulseCounter st = st\<lparr>pulseCount := pulseCount st + 1\<rparr>"

subsection \<open>The accessors of \<^verbatim>\<open>part_000\<close> (first version)\<close>

definition getFlowRate :: "sketch \<Rightarrow> fp" where
  "getFlowRate st = flowRate st"

definition getTotalVolume :: "sketch \<Rightarrow> fp" where
  "getTotalVolume st = totalVolume st"

definition resetTotalVolume :: "sketch \<Rightarrow> sketch" where
  "resetTotalVolume st = st\<lparr>totalVolume := zero\<rparr>"

definition setCalibrationFactor :: "fp \<Rightarrow> sketch \<Rightarrow> sketch" where
  "setCalibrationFactor factor st = st\<lparr>calibrationFactor := factor\<rparr>"

subsection \<open>The measurement of one interval\<close>

text \<open>
  What one pass through the interval block computes besides the globals: the drained
  pulse count, the elapsed time, the frequency and the volume of the interval.
\<close>

record sample =
  pulses :: ulong
  elapsedSeconds :: fp
  frequency :: fp
  volumeThisInterval_L :: fp
  volumeThisInterval_mL :: fp

text \<open>
  Line 143 of \<^verbatim>\<open>flow_control.ino\<close> is the conditional
  \<^verbatim>\<open>(elapsedSeconds > 0) ? (pulses / elapsedSeconds) : 0.0f\<close>. Its guard decides whether a
  division is executed at all; \<open>elapsed_divisor\<close> is the divisor handed to the division
  when it is.
\<close>

definition elapsed_divisor :: "fp \<Rightarrow> fp option" where
  "elapsed_divisor es = (if fp_gt es zero then Some es else None)"

text \<open>Lines 143 to 151 of \<^verbatim>\<open>flow_control.ino\<close>, all in binary32.\<close>

definition calculate :: "ulong \<Rightarrow> fp \<Rightarrow> 'a sketch_scheme \<Rightarrow> sample \<times> 'a sketch_scheme" where
  "calculate p es st =
     (let freq = (case elapsed_divisor es of
                    Some d \<Rightarrow> fdiv binary32 (of_ulong binary32 p) d
                  | None \<Rightarrow> zero);
          rate = fdiv binary32 freq (calibrationFactor st);
          vL = fdiv binary32 (fmul binary32 (of_ulong binary32 p) ML_PER_PULSE) (Finite False 1000);
          vmL = fmul binary32 vL (Finite False 1000);
          total = fadd binary32 (totalVolume st) vL
      in (\<lparr>pulses = p, elapsedSeconds = es, frequency = freq,
            volumeThisInterval_L = vL, volumeThisInterval_mL = vmL\<rparr>,
          st\<lparr>flowRate := rate, totalVolume := total\<rparr>))"

subsection \<open>Formatting the notification\<close>

text \<open>
  The payload is written by \<^verbatim>\<open>snprintf\<close> of the C library with the format
  \<^verbatim>\<open>"%lu,%.2f,%.3f,%.2f,%.4f"\<close>. The conversions are modelled after the C standard:
  \<^verbatim>\<open>%lu\<close> writes the decimal digits of the number; \<^verbatim>\<open>%.Nf\<close> (with \<open>N > 0\<close>) writes a
  minus sign when the sign bit is set, the integer part, a point and exactly \<open>N\<close> digits
  of the value rounded to \<open>N\<close> decimals, and \<^verbatim>\<open>inf\<close> or \<^verbatim>\<open>nan\<close> for the special values.
  \<^verbatim>\<open>snprintf\<close> keeps at most one character less than the size of the buffer.
\<close>

definition digit :: "nat \<Rightarrow> char" where
  "digit d = ''0123456789'' ! d"

fun dec :: "nat \<Rightarrow> string" where
  "dec n = (if n < 10 then [digit n] else dec (n div 10) @ [digit (n mod 10)])"

declare dec.simps [simp del]

definition fmt_lu :: "ulong \<Rightarrow> string" where
  "fmt_lu w = dec (unat w)"

fun fmt_f :: "nat \<Rightarrow> fp \<Rightarrow> string" where
  "fmt_f d (Finite s m) =
     (let k = nat (rhe (m * 10 ^ d)); ds = dec (k mod 10 ^ d) in
      (if s then ''-'' else []) @ dec (k div 10 ^ d) @ ''.'' @
      replicate (d - length ds) (CHR ''0'') @ ds)"
| "fmt_f d (Infinity s) = (if s then ''-inf'' else ''inf'')"
| "fmt_f d NaN = ''nan''"

definition snprintf_payload :: "nat \<Rightarrow> ulong \<Rightarrow> fp \<Rightarrow> fp \<Rightarrow> fp \<Rightarrow> fp \<Rightarrow> string" where
  "snprintf_payload bufsize p f r v t =
     take (bufsize - 1)
       (fmt_lu p @ '','' @ fmt_f 2 f @ '','' @ fmt_f 3 r @ '','' @ fmt_f 2 v @ '','' @ fmt_f 4 t)"

subsection \<open>\<^verbatim>\<open>flow_control.ino\<close>\<close>

text \<open>
  The sketch with the wireless notification adds the connection flag and the
  characteristic (\<open>None\<close> for the null pointer, otherwise its current value).
\<close>

record ble_sketch = sketch +
  deviceConnected :: bool
  pCharacteristic :: "string option"

definition CALC_INTERVAL :: ulong where
  "CALC_INTERVAL = 100"

definition ble_globals :: ble_sketch where
  "ble_globals = \<lparr>pulseCount = 0, lastTime = 0, flowRate = zero, totalVolume = zero,
     calibrationFactor = Finite False 5, deviceConnected = False, pCharacteristic = None\<rparr>"

definition onConnect :: "ble_sketch \<Rightarrow> ble_sketch" where
  "onConnect st = st\<lparr>deviceConnected := True\<rparr>"

definition onDisconnect :: "ble_sketch \<Rightarrow> ble_sketch" where
  "onDisconnect st = st\<lparr>deviceConnected := False\<rparr>"

definition setupBLE :: "ble_sketch \<Rightarrow> ble_sketch" where
  "setupBLE st =
     st\<lparr>pCharacteristic := Some ''pulses,frequency_hz,flow_l_min,vol_ml_interval,total_l''\<rparr>"

text \<open>
  The function \<^verbatim>\<open>setup()\<close> of the sketch (its name is a keyword here); the argument is
  what \<^verbatim>\<open>millis()\<close> returns at its last line.
\<close>

definition setup_sketch :: "ulong \<Rightarrow> ble_sketch \<Rightarrow> ble_sketch" where
  "setup_sketch now st = (setupBLE st)\<lparr>lastTime := now\<rparr>"

text \<open>
  One call of \<^verbatim>\<open>loop\<close>; its argument is what \<^verbatim>\<open>millis()\<close> returns at its first line.
  The result is the new state and, when the interval block ran, the sample with the
  payload notified (if a peer is connected). The counter is read and cleared with
  interrupts disabled, hence in one step.
\<close>

definition loop :: "ulong \<Rightarrow> ble_sketch \<Rightarrow> ble_sketch \<times> (sample \<times> string option) option" where
  "loop currentTime st =
     (if CALC_INTERVAL \<le> currentTime - lastTime st then
        (let p = pulseCount st;
             st1 = st\<lparr>pulseCount := 0\<rparr>;
             es = fdiv binary32 (of_ulong binary32 (currentTime - lastTime st)) (Finite False 1000);
             (smp, st2) = calculate p es st1;
             notification =
               (if deviceConnected st2 \<and> pCharacteristic st2 \<noteq> None
                then Some (snprintf_payload 128 p (frequency smp) (flowRate st2)
                             (volumeThisInterval_mL smp) (totalVolume st2))
                else None);
             st3 = (case notification of
                      None \<Rightarrow> st2
                    | Some payload \<Rightarrow> st2\<lparr>pCharacteristic := Some payload\<rparr>)
         in (st3\<lparr>lastTime := currentTime\<rparr>, Some (smp, notification)))
      else (st, None))"

subsection \<open>The two earlier versions in \<^verbatim>\<open>part_000\<close>\<close>

text \<open>
  Both compute once per second, with the interrupt detached during the block. Their
  divisions by \<^verbatim>\<open>1000.0\<close> are in binary64 (the literal is a \<^verbatim>\<open>double\<close>) and the result is
  rounded to binary32 when it is stored in a \<^verbatim>\<open>float\<close>.
\<close>

definition CALC_INTERVAL_v1 :: ulong where
  "CALC_INTERVAL_v1 = 1000"

definition volumeThisSecond :: "ulong \<Rightarrow> fp" where
  "volumeThisSecond p =
     fcast binary32
       (fdiv binary64 (fmul binary32 (of_ulong binary32 p) ML_PER_PULSE) (Finite False 1000))"

definition loop_v1 :: "ulong \<Rightarrow> sketch \<Rightarrow> sketch \<times> sample option" where
  "loop_v1 currentTime st =
     (if CALC_INTERVAL_v1 \<le> currentTime - lastTime st then
        (let es = fdiv binary64 (of_ulong binary64 (currentTime - lastTime st)) (Finite False 1000);
             freq = fcast binary32 (fdiv binary64 (of_ulong binary64 (pulseCount st)) es);
             rate = fdiv binary32 freq (calibrationFactor st);
             v = volumeThisSecond (pulseCount st);
             total = fadd binary32 (totalVolume st) v
         in (st\<lparr>pulseCount := 0, lastTime := currentTime, flowRate := rate, totalVolume := total\<rparr>,
             Some \<lparr>pulses = pulseCount st, elapsedSeconds = es, frequency = freq,
                    volumeThisInterval_L = v,
                    volumeThisInterval_mL = fmul binary32 v (Finite False 1000)\<rparr>))
      else (st, None))"

definition loop_v2 :: "ulong \<Rightarrow> sketch \<Rightarrow> sketch \<times> sample option" where
  "loop_v2 currentTime st =
     (if CALC_INTERVAL_v1 \<le> currentTime - lastTime st then
        (let es = fcast binary32
                    (fdiv binary64 (of_ulong binary64 (currentTime - lastTime st)) (Finite False 1000));
             freq = fdiv binary32 (of_ulong binary32 (pulseCount st)) es;
             rate = fdiv binary32 freq (calibrationFactor st);
             v = volumeThisSecond (pulseCount st);
             total = fadd binary32 (totalVolume st) v
         in (st\<lparr>pulseCount := 0, lastTime := currentTime, flowRate := rate, totalVolume := total\<rparr>,
             Some \<lparr>pulses = pulseCount st, elapsedSeconds = es, frequency = freq,
                    volumeThisInterval_L = v,
                    volumeThisInterval_mL = fmul binary32 v (Finite False 1000)\<rparr>))
      else (st, None))"

subsection \<open>The states \<^verbatim>\<open>flow_control.ino\<close> can be in\<close>

text \<open>
  The sketch starts in \<^verbatim>\<open>setup\<close>; afterwards \<^verbatim>\<open>loop\<close> is called again and again, with
  whatever the clock shows, and between two calls pulses may arrive and a peer may
  connect or disconnect. Nothing in \<^verbatim>\<open>flow_control.ino\<close> assigns the calibration factor.
\<close>

inductive reachable :: "ble_sketch \<Rightarrow> bool" where
  start: "reachable (setup_sketch now ble_globals)"
| interrupt: "reachable st \<Longrightarrow> reachable (pulseCounter st)"
| connect: "reachable st \<Longrightarrow> reachable (onConnect st)"
| disconnect: "reachable st \<Longrightarrow> reachable (onDisconnect st)"
| iteration: "reachable st \<Longrightarrow> reachable (fst (loop currentTime st))"

text \<open>
  What holds in all of them: the calibration factor is 5, and the total is a finite
  binary32 number with a clear sign bit that does not exceed \<open>2 ^ 60\<close>.
\<close>

fun total_ok :: "fp \<Rightarrow> bool" where
  "total_ok (Finite s m) = (\<not> s \<and> 0 \<le> m \<and> m \<le> 2 ^ 60 \<and> rnd_mag binary32 m = m)"
| "total_ok x = False"

definition flow_inv :: "'a sketch_scheme \<Rightarrow> bool" where
  "flow_inv st = (calibrationFactor st = Finite False 5 \<and> total_ok (totalVolume st))"

subsection \<open>Reading the notification\<close>

text \<open>
  How a receiver takes the record apart: the fields between the commas, a field of
  digits only, and a field in fixed-point notation with a given number of decimals.
\<close>

fun split_commas :: "string \<Rightarrow> string list" where
  "split_commas [] = [[]]"
| "split_commas (c # cs) =
     (if c = CHR '','' then [] # split_commas cs
      else (case split_commas cs of [] \<Rightarrow> [[c]] | f # fs \<Rightarrow> (c # f) # fs))"

definition is_digit :: "char \<Rightarrow> bool" where
  "is_digit c = (c \<in> set ''0123456789'')"

definition is_unsigned :: "string \<Rightarrow> bool" where
  "is_unsigned s = (s \<noteq> [] \<and> list_all is_digit s)"

definition is_fixed :: "nat \<Rightarrow> string \<Rightarrow> bool" where
  "is_fixed d s =
     (let u = (case s of [] \<Rightarrow> [] | c # cs \<Rightarrow> if c = CHR ''-'' then cs else s);
          n = length u
      in d + 2 \<le> n \<and> is_unsigned (take (n - d - 1) u) \<and> u ! (n - d - 1) = CHR ''.''
         \<and> list_all is_digit (drop (n - d) u))"

section \<open>Properties of rounding\<close>

text \<open>
  Rounding to the nearest integer fixes the integers and is monotone; the binade of a
  positive number brackets it; hence rounding to a format is monotone on magnitudes,
  leaves the numbers of the format alone, and is idempotent.
\<close>

lemma rhe_of_int: "rhe (of_int k) = k"
  by (simp add: rhe_def Let_def)

lemma rhe_floor_le: "\<lfloor>x\<rfloor> \<le> rhe x"
  by (simp add: rhe_def Let_def)

lemma rhe_le_floor: "rhe x \<le> \<lfloor>x\<rfloor> + 1"
  by (simp add: rhe_def Let_def)

lemma rhe_mono:
  assumes "x \<le> y"
  shows "rhe x \<le> rhe y"
proof (cases "\<lfloor>x\<rfloor> < \<lfloor>y\<rfloor>")
  case True
  have "rhe x \<le> \<lfloor>x\<rfloor> + 1" by (rule rhe_le_floor)
  also have "\<dots> \<le> \<lfloor>y\<rfloor>" using True by simp
  also have "\<dots> \<le> rhe y" by (rule rhe_floor_le)
  finally show ?thesis .
next
  case False
  moreover have "\<lfloor>x\<rfloor> \<le> \<lfloor>y\<rfloor>" using assms by (rule floor_mono)
  ultimately have eq: "\<lfloor>x\<rfloor> = \<lfloor>y\<rfloor>" by simp
  have "x - of_int \<lfloor>y\<rfloor> \<le> y - of_int \<lfloor>y\<rfloor>" using assms by simp
  then show ?thesis
    by (auto simp: rhe_def Let_def eq)
qed

lemma rhe_nonneg: "0 \<le> x \<Longrightarrow> 0 \<le> rhe x"
  using rhe_mono [of 0 x] rhe_of_int [of 0] by simp

lemma bitlen_pos: "0 < n \<Longrightarrow> 1 \<le> bitlen n"
  using bitlen_eq_zero_iff [of n] bitlen_nonneg [of n] by linarith

lemma ilog2_bounds:
  assumes "0 < x"
  shows "2 powi (ilog2 x) \<le> x \<and> x < 2 powi (ilog2 x + 1)"
proof (cases "1 \<le> x")
  case True
  define n where "n = \<lfloor>x\<rfloor>"
  have npos: "0 < n" using True by (simp add: n_def)
  have bl: "1 \<le> bitlen n" using npos by (rule bitlen_pos)
  have il: "ilog2 x = bitlen n - 1" using True by (simp add: ilog2_def n_def)
  from bitlen_bounds [OF npos]
  have b1: "2 ^ nat (bitlen n - 1) \<le> n" and b2: "n + 1 \<le> 2 ^ nat (bitlen n)" by auto
  have "(2::rat) ^ nat (bitlen n - 1) \<le> of_int n"
    using b1 by (metis of_int_le_iff of_int_numeral of_int_power)
  also have "\<dots> \<le> x" by (simp add: n_def)
  finally have lo: "2 powi (ilog2 x) \<le> x"
    using bl by (simp add: il power_int_nonneg_exp)
  have "x < of_int n + 1" using floor_correct [of x] by (simp add: n_def)
  also have "\<dots> = of_int (n + 1)" by simp
  also have "\<dots> \<le> (2::rat) ^ nat (bitlen n)"
    using b2 by (metis of_int_le_iff of_int_numeral of_int_power)
  finally have hi: "x < 2 powi (ilog2 x + 1)"
    using bl by (simp add: il power_int_nonneg_exp)
  from lo hi show ?thesis ..
next
  case False
  define m where "m = \<lceil>1 / x\<rceil> - 1"
  define k where "k = bitlen m"
  have y1: "1 < 1 / x" using False assms by simp
  have mpos: "0 < m" using y1 by (simp add: m_def less_ceiling_iff)
  have kpos: "1 \<le> k" unfolding k_def using mpos by (rule bitlen_pos)
  have il: "ilog2 x = - k" using False by (simp add: ilog2_def m_def k_def)
  from bitlen_bounds [OF mpos]
  have b1: "2 ^ nat (k - 1) \<le> m" and b2: "m + 1 \<le> 2 ^ nat k" by (auto simp: k_def)
  have "1 / x \<le> of_int (m + 1)" by (simp add: m_def)
  also have "\<dots> \<le> (2::rat) ^ nat k"
    using b2 by (metis of_int_le_iff of_int_numeral of_int_power)
  finally have "1 / x \<le> 2 ^ nat k" .
  then have "1 / 2 ^ nat k \<le> x"
    using assms by (simp add: field_simps)
  then have lo: "2 powi (ilog2 x) \<le> x"
    using kpos by (simp add: il power_int_minus_divide power_int_nonneg_exp)
  have "(2::rat) ^ nat (k - 1) \<le> of_int m"
    using b1 by (metis of_int_le_iff of_int_numeral of_int_power)
  also have "\<dots> < 1 / x" by (simp add: m_def) linarith
  finally have "2 ^ nat (k - 1) < 1 / x" .
  then have "x < 1 / 2 ^ nat (k - 1)"
    using assms by (simp add: field_simps)
  moreover have "(2::rat) powi (- k + 1) = 1 / 2 ^ nat (k - 1)"
    using kpos power_int_minus_divide [of "2::rat" "k - 1"] by (simp add: power_int_nonneg_exp)
  ultimately have hi: "x < 2 powi (ilog2 x + 1)"
    by (simp add: il)
  from lo hi show ?thesis ..
qed


lemma ilog2_less:
  assumes "0 < x" and "x < 2 powi k"
  shows "ilog2 x < k"
proof (rule ccontr)
  assume "\<not> ilog2 x < k"
  then have "(2::rat) powi k \<le> 2 powi (ilog2 x)"
    by (intro power_int_increasing) auto
  also have "\<dots> \<le> x" using ilog2_bounds [OF assms(1)] by simp
  finally show False using assms(2) by simp
qed

lemma ilog2_ge:
  assumes "0 < x" and "2 powi k \<le> x"
  shows "k \<le> ilog2 x"
proof (rule ccontr)
  assume "\<not> k \<le> ilog2 x"
  then have "(2::rat) powi (ilog2 x + 1) \<le> 2 powi k"
    by (intro power_int_increasing) auto
  moreover have "x < 2 powi (ilog2 x + 1)" using ilog2_bounds [OF assms(1)] by simp
  ultimately show False using assms(2) by simp
qed

lemma ilog2_mono:
  assumes "0 < x" and "x \<le> y"
  shows "ilog2 x \<le> ilog2 y"
proof -
  have "2 powi (ilog2 x) \<le> x" using ilog2_bounds [OF assms(1)] by simp
  with assms show ?thesis by (intro ilog2_ge) auto
qed

lemma grid_mono: "0 < x \<Longrightarrow> x \<le> y \<Longrightarrow> grid f x \<le> grid f y"
  using ilog2_mono [of x y] by (simp add: grid_def max_def)

lemma grid_ge_emin: "emin f \<le> grid f x"
  by (simp add: grid_def)

lemma below_grid_top:
  assumes "0 < x"
  shows "x < 2 powi (grid f x + int (prec f))"
proof -
  have "x < 2 powi (ilog2 x + 1)" using ilog2_bounds [OF assms] by simp
  also have "\<dots> \<le> 2 powi (grid f x + int (prec f))"
    by (intro power_int_increasing) (auto simp: grid_def)
  finally show ?thesis .
qed

lemma two_powi_int: "0 \<le> k \<Longrightarrow> (2::rat) powi k = of_int (2 ^ nat k)"
  by (simp add: power_int_nonneg_exp)

lemma rhe_int_scaled:
  assumes "0 \<le> d"
  shows "rhe (of_int j * 2 powi d) = j * 2 ^ nat d"
proof -
  have "of_int j * (2::rat) powi d = of_int (j * 2 ^ nat d)"
    using assms by (simp add: two_powi_int)
  then show ?thesis by (simp only: rhe_of_int)
qed

lemma rnd_mag_zero: "rnd_mag f 0 = 0"
  by (simp add: rnd_mag_def Let_def rhe_def)

lemma rnd_mag_nonneg: "0 \<le> x \<Longrightarrow> 0 \<le> rnd_mag f x"
  by (simp add: rnd_mag_def Let_def rhe_nonneg)

lemma rnd_mag_exact:
  assumes e: "emin f \<le> e" and j: "0 \<le> j" "j < 2 ^ prec f"
  shows "rnd_mag f (of_int j * 2 powi e) = of_int j * 2 powi e"
proof (cases "j = 0")
  case True
  then show ?thesis by (simp add: rnd_mag_zero)
next
  case False
  define x :: rat where "x = of_int j * 2 powi e"
  define g where "g = grid f x"
  have jpos: "0 < j" using False j by simp
  have xpos: "0 < x" using jpos by (simp add: x_def)
  have "of_int j < (2::rat) ^ prec f"
    using j(2) by (metis of_int_less_iff of_int_numeral of_int_power)
  then have "x < 2 powi int (prec f) * 2 powi e"
    by (simp add: x_def)
  also have "\<dots> = 2 powi (e + int (prec f))"
    by (simp add: power_int_add add.commute)
  finally have "ilog2 x < e + int (prec f)" using xpos by (intro ilog2_less) auto
  then have ge: "g \<le> e" using e by (simp add: g_def grid_def)
  have "x / 2 powi g = of_int j * 2 powi (e - g)"
    by (simp add: x_def power_int_diff)
  then have "rhe (x / 2 powi g) = j * 2 ^ nat (e - g)"
    using ge by (simp add: rhe_int_scaled)
  then have "rnd_mag f x = of_int (j * 2 ^ nat (e - g)) * 2 powi g"
    by (simp add: rnd_mag_def g_def Let_def)
  also have "\<dots> = of_int j * (2 powi (e - g) * 2 powi g)"
    using ge by (simp add: two_powi_int)
  also have "2 powi (e - g) * (2::rat) powi g = 2 powi e"
    by (simp flip: power_int_add)
  finally show ?thesis by (simp add: x_def)
qed

lemma rhe_below_top:
  assumes "0 < x" and "0 < prec f"
  shows "rhe (x / 2 powi grid f x) \<le> 2 ^ prec f"
proof -
  have "x / 2 powi grid f x \<le> 2 powi (grid f x + int (prec f)) / 2 powi grid f x"
    using below_grid_top [OF assms(1), of f] by (intro divide_right_mono) auto
  also have "\<dots> = of_int (2 ^ prec f)"
    by (simp add: power_int_add)
  finally have "rhe (x / 2 powi grid f x) \<le> rhe (of_int (2 ^ prec f))"
    by (rule rhe_mono)
  then show ?thesis by (simp only: rhe_of_int)
qed

lemma rnd_mag_idem:
  assumes "0 \<le> x" and p: "0 < prec f"
  shows "rnd_mag f (rnd_mag f x) = rnd_mag f x"
proof (cases "x = 0")
  case True
  then show ?thesis by (simp add: rnd_mag_zero)
next
  case False
  then have xpos: "0 < x" using assms by simp
  define e where "e = grid f x"
  define k where "k = rhe (x / 2 powi e)"
  have r: "rnd_mag f x = of_int k * 2 powi e"
    by (simp add: rnd_mag_def e_def k_def Let_def)
  have k0: "0 \<le> k" unfolding k_def using xpos by (intro rhe_nonneg) simp
  have ktop: "k \<le> 2 ^ prec f" unfolding k_def e_def using xpos p by (rule rhe_below_top)
  have em: "emin f \<le> e" by (simp add: e_def grid_ge_emin)
  show ?thesis
  proof (cases "k < 2 ^ prec f")
    case True
    show ?thesis unfolding r using em k0 True by (rule rnd_mag_exact)
  next
    case False
    then have keq: "k = 2 ^ prec f" using ktop by simp
    obtain q where q: "prec f = Suc q" using p by (cases "prec f") auto
    have "of_int k * (2::rat) powi e = of_int (2 ^ q) * 2 powi (e + 1)"
      by (simp add: keq q power_int_add)
    moreover have "rnd_mag f (of_int (2 ^ q) * 2 powi (e + 1)) = of_int (2 ^ q) * 2 powi (e + 1)"
      using em by (intro rnd_mag_exact) (auto simp: q)
    ultimately show ?thesis by (simp add: r)
  qed
qed

lemma rnd_mag_mono:
  assumes "0 \<le> x" and "x \<le> y" and p: "0 < prec f"
  shows "rnd_mag f x \<le> rnd_mag f y"
proof (cases "x = 0")
  case True
  then show ?thesis using assms by (simp add: rnd_mag_zero rnd_mag_nonneg)
next
  case False
  then have xpos: "0 < x" using assms by simp
  then have ypos: "0 < y" using assms by simp
  define e1 where "e1 = grid f x"
  define e2 where "e2 = grid f y"
  have le: "e1 \<le> e2" unfolding e1_def e2_def using xpos assms(2) by (rule grid_mono)
  show ?thesis
  proof (cases "e1 = e2")
    case True
    have "x / 2 powi e2 \<le> y / 2 powi e2"
      using assms(2) by (intro divide_right_mono) auto
    then have "rhe (x / 2 powi e2) \<le> rhe (y / 2 powi e2)" by (rule rhe_mono)
    then have "(of_int (rhe (x / 2 powi e2)) :: rat) * 2 powi e2 \<le> of_int (rhe (y / 2 powi e2)) * 2 powi e2"
      by (intro mult_right_mono) auto
    then show ?thesis
      using True by (simp add: rnd_mag_def Let_def e1_def e2_def)
  next
    case False
    then have lt: "e1 < e2" using le by simp
    define b :: rat where "b = 2 powi (e2 + int (prec f) - 1)"
    have "emin f \<le> e1" by (simp add: e1_def grid_ge_emin)
    then have e2eq: "e2 = ilog2 y - (int (prec f) - 1)"
      using lt by (simp add: e2_def grid_def max_def split: if_splits)
    have b_le_y: "b \<le> y"
      using ilog2_bounds [OF ypos] by (simp add: b_def e2eq)
    have "x < 2 powi (e1 + int (prec f))"
      unfolding e1_def using xpos by (rule below_grid_top)
    also have "\<dots> \<le> b" unfolding b_def
      using lt by (intro power_int_increasing) auto
    finally have xb: "x \<le> b" by simp
    have b1: "b / 2 powi e1 = of_int 1 * 2 powi (e2 + int (prec f) - 1 - e1)"
    proof -
      have "(2::rat) powi (e2 + int (prec f) - 1 - e1) = 2 powi (e2 + int (prec f) - 1) / 2 powi e1"
        by (rule power_int_diff) simp
      then show ?thesis by (simp add: b_def)
    qed
    have b2: "b / 2 powi e2 = of_int 1 * 2 powi (int (prec f) - 1)"
    proof -
      have "(2::rat) powi (e2 + int (prec f) - 1 - e2) = 2 powi (e2 + int (prec f) - 1) / 2 powi e2"
        by (rule power_int_diff) simp
      then show ?thesis by (simp add: b_def)
    qed
    have "x / 2 powi e1 \<le> b / 2 powi e1"
      using xb by (intro divide_right_mono) auto
    then have "rhe (x / 2 powi e1) \<le> rhe (b / 2 powi e1)" by (rule rhe_mono)
    also have "\<dots> = 2 ^ nat (e2 + int (prec f) - 1 - e1)"
      unfolding b1 using lt by (subst rhe_int_scaled) auto
    finally have "(of_int (rhe (x / 2 powi e1)) :: rat) * 2 powi e1
        \<le> of_int (2 ^ nat (e2 + int (prec f) - 1 - e1)) * 2 powi e1"
      by (intro mult_right_mono) auto
    also have "\<dots> = 2 powi (e2 + int (prec f) - 1 - e1) * 2 powi e1"
      using lt by (simp add: two_powi_int)
    also have "\<dots> = b"
      by (simp add: b_def flip: power_int_add)
    finally have lo: "rnd_mag f x \<le> b"
      by (simp add: rnd_mag_def Let_def e1_def)
    have "b / 2 powi e2 \<le> y / 2 powi e2"
      using b_le_y by (intro divide_right_mono) auto
    then have "rhe (b / 2 powi e2) \<le> rhe (y / 2 powi e2)" by (rule rhe_mono)
    moreover have "rhe (b / 2 powi e2) = 2 ^ nat (int (prec f) - 1)"
      unfolding b2 using p by (subst rhe_int_scaled) auto
    ultimately have f1: "(of_int (2 ^ nat (int (prec f) - 1)) :: rat) * 2 powi e2
        \<le> of_int (rhe (y / 2 powi e2)) * 2 powi e2"
      by (intro mult_right_mono) auto
    have f2: "(of_int (2 ^ nat (int (prec f) - 1)) :: rat) * 2 powi e2 = b"
    proof -
      have "(of_int (2 ^ nat (int (prec f) - 1)) :: rat) = 2 powi (int (prec f) - 1)"
        using p by (simp add: two_powi_int)
      moreover have "(2::rat) powi (int (prec f) - 1) * 2 powi e2 = 2 powi (int (prec f) - 1 + e2)"
        by (rule power_int_add [symmetric]) simp
      moreover have "int (prec f) - 1 + e2 = e2 + int (prec f) - 1" by simp
      ultimately show ?thesis by (simp only: b_def)
    qed
    have ry: "rnd_mag f y = of_int (rhe (y / 2 powi e2)) * 2 powi e2"
      by (simp add: rnd_mag_def Let_def e2_def)
    have hi: "b \<le> rnd_mag f y"
      using f1 by (simp only: f2 ry)
    from lo hi show ?thesis by simp
  qed
qed

section \<open>Properties of the floating-point operations\<close>

text \<open>
  A rounded result lies between any two numbers of the format that enclose the exact
  result; adding a non-negative number never yields less; the conversion of a 32-bit
  counter and the volume computed from it are finite and non-negative.
\<close>

lemma prec_pos: "0 < prec binary32" "0 < prec binary64"
  by (simp_all add: binary32_def binary64_def)

lemma round_to_cases:
  "round_to f s x = Infinity s \<and> 2 powi (emax f) \<le> rnd_mag f x
   \<or> round_to f s x = Finite s (rnd_mag f x) \<and> rnd_mag f x < 2 powi (emax f)"
  by (simp add: round_to_def Let_def)

lemma round_to_zero: "round_to f s 0 = Finite s 0"
  by (simp add: round_to_def rnd_mag_zero Let_def not_le)

lemma round_to_between:
  assumes "0 < prec f" and "0 \<le> lo" and "lo \<le> x" and "x \<le> hi"
    and "rnd_mag f lo = lo" and "rnd_mag f hi = hi" and "hi < 2 powi (emax f)"
  shows "\<exists>r. round_to f s x = Finite s r \<and> lo \<le> r \<and> r \<le> hi \<and> rnd_mag f r = r"
proof -
  have x0: "0 \<le> x" using assms by simp
  have l: "lo \<le> rnd_mag f x"
    using rnd_mag_mono [OF assms(2) assms(3) assms(1)] assms(5) by simp
  have h: "rnd_mag f x \<le> hi"
    using rnd_mag_mono [OF x0 assms(4) assms(1)] assms(6) by simp
  have "round_to f s x = Finite s (rnd_mag f x)"
    using h assms(7) by (simp add: round_to_def Let_def)
  moreover have "rnd_mag f (rnd_mag f x) = rnd_mag f x"
    using x0 assms(1) by (rule rnd_mag_idem)
  ultimately show ?thesis using l h by blast
qed

lemma is_fp_round_to:
  assumes "0 \<le> x" and "0 < prec f"
  shows "is_fp f (round_to f s x)"
proof -
  have i: "rnd_mag f (rnd_mag f x) = rnd_mag f x" using assms by (rule rnd_mag_idem)
  have n: "0 \<le> rnd_mag f x" using assms(1) by (rule rnd_mag_nonneg)
  show ?thesis
    using round_to_cases [of f s x] i n by (auto simp: round_to_def Let_def)
qed

lemma is_fp_FiniteD:
  assumes "is_fp f (Finite s m)"
  shows "0 \<le> m" and "rnd_mag f m = m" and "m < 2 powi (emax f)"
  using assms by (auto simp: round_to_def Let_def split: if_splits)

lemma sval_simps: "sval b 0 = 0" "sval False m = m" "sval True m = - m"
  by (simp_all add: sval_def)

lemma fadd_nonneg_ge:
  assumes p: "0 < prec f" and t: "is_fp f t" and nn: "\<not> is_nan t"
    and n0: "0 \<le> n" and sgn: "sv \<Longrightarrow> n = 0"
  shows "fp_le t (fadd f t (Finite sv n))"
proof (cases t)
  case (Finite s m)
  note m = is_fp_FiniteD [OF t [unfolded Finite]]
  define w where "w = sval s m + sval sv n"
  have fa: "fadd f (Finite s m) (Finite sv n) =
      (if w = 0 then Finite (s \<and> sv) 0 else round_to f (w < 0) \<bar>w\<bar>)"
    unfolding w_def by (simp only: fadd.simps Let_def)
  have vn: "0 \<le> sval sv n" using n0 sgn by (auto simp: sval_def)
  have wge: "sval s m \<le> w" using vn by (simp add: w_def)
  consider "w = 0" | "0 < w" | "w < 0" by linarith
  then show ?thesis
  proof cases
    case 1
    then show ?thesis using wge by (simp add: fa Finite sval_simps del: fadd.simps)
  next
    case 2
    have "sval s m \<le> rnd_mag f w"
    proof (cases s)
      case True
      have "0 \<le> rnd_mag f w" using 2 by (intro rnd_mag_nonneg) simp
      then show ?thesis using True m(1) by (simp add: sval_simps)
    next
      case False
      then have "m \<le> w" using wge by (simp add: sval_simps)
      from rnd_mag_mono [OF m(1) this p] show ?thesis
        using False m(2) by (simp add: sval_simps)
    qed
    then show ?thesis
      using 2 round_to_cases [of f False w]
      by (auto simp: fa Finite sval_simps simp del: fadd.simps)
  next
    case 3
    have s: "s"
    proof (rule ccontr)
      assume "\<not> s"
      then show False using wge m(1) 3 by (simp add: sval_simps)
    qed
    have "- w \<le> m" using wge s by (simp add: sval_simps)
    moreover have "0 \<le> - w" using 3 by simp
    ultimately have le: "rnd_mag f (- w) \<le> m"
      using rnd_mag_mono [of "- w" m f] p m(2) by simp
    have r: "fadd f (Finite s m) (Finite sv n) = round_to f True (- w)"
      using 3 by (simp add: fa abs_if del: fadd.simps)
    have rt: "round_to f True (- w) = Finite True (rnd_mag f (- w))"
      using le m(3) round_to_cases [of f True "- w"] by auto
    show ?thesis
      unfolding Finite r rt using le s by (simp add: sval_simps)
  qed
next
  case (Infinity s)
  then show ?thesis by simp
next
  case NaN
  then show ?thesis using nn by simp
qed

lemma unat_ulong_le: "rat_of_nat (unat (w::ulong)) \<le> 4294967296"
proof -
  have "unat w < 2 ^ 32" using unsigned_less [of w, where ?'a = nat] by simp
  then have "unat w \<le> 4294967296" by simp
  then have "rat_of_nat (unat w) \<le> rat_of_nat 4294967296" by (simp only: of_nat_le_iff)
  then show ?thesis by simp
qed

lemma exact32:
  "rnd_mag binary32 4294967296 = 4294967296"
  "rnd_mag binary32 1 = 1"
  "rnd_mag binary32 (9 / 4) = 9 / 4"
  "rnd_mag binary32 (1 / 512) = 1 / 512"
  "rnd_mag binary32 17179869184 = 17179869184"
  "rnd_mag binary32 33554432 = 33554432"
  "rnd_mag binary32 34359738368 = 34359738368"
  by code_simp+

lemma exact64:
  "rnd_mag binary64 4294967296 = 4294967296"
  "rnd_mag binary64 1 = 1"
  "rnd_mag binary64 (1 / 512) = 1 / 512"
  "rnd_mag binary64 33554432 = 33554432"
  by code_simp+

lemma below_emax:
  "(4294967296::rat) < 2 powi (emax binary32)"
  "(17179869184::rat) < 2 powi (emax binary32)"
  "(33554432::rat) < 2 powi (emax binary32)"
  "(34359738368::rat) < 2 powi (emax binary32)"
  "(4294967296::rat) < 2 powi (emax binary64)"
  "(33554432::rat) < 2 powi (emax binary64)"
  by (simp_all add: binary32_def binary64_def)

lemma of_ulong_between:
  assumes "0 < prec f" and "0 \<le> lo" and "lo \<le> rat_of_nat (unat w)"
    and "rnd_mag f lo = lo" and "rnd_mag f 4294967296 = 4294967296"
    and "(4294967296::rat) < 2 powi (emax f)"
  shows "\<exists>a. of_ulong f w = Finite False a \<and> lo \<le> a \<and> a \<le> 4294967296 \<and> rnd_mag f a = a"
  unfolding of_ulong_def
  using assms unat_ulong_le [of w] by (intro round_to_between) auto

lemma volume_between:
  assumes "0 \<le> la" and "la \<le> rat_of_nat (unat p)" and "rnd_mag binary32 la = la"
    and "0 \<le> lb" and "lb \<le> la * (9 / 4)" and "rnd_mag binary32 lb = lb"
    and "0 \<le> lc" and "lc \<le> lb / 1000" and "rnd_mag binary32 lc = lc"
  shows "\<exists>c. fdiv binary32 (fmul binary32 (of_ulong binary32 p) ML_PER_PULSE) (Finite False 1000)
            = Finite False c \<and> lc \<le> c \<and> c \<le> 33554432 \<and> rnd_mag binary32 c = c"
proof -
  obtain a where a: "of_ulong binary32 p = Finite False a" "la \<le> a" "a \<le> 4294967296"
    using of_ulong_between [OF prec_pos(1) assms(1) assms(2) assms(3) exact32(1) below_emax(1)]
    by auto
  have "\<exists>b. round_to binary32 False (a * (9 / 4)) = Finite False b \<and> lb \<le> b \<and> b \<le> 17179869184
      \<and> rnd_mag binary32 b = b"
    using a assms below_emax exact32 by (intro round_to_between prec_pos) auto
  then obtain b where b: "round_to binary32 False (a * (9 / 4)) = Finite False b" "lb \<le> b"
    "b \<le> 17179869184" by auto
  have c: "\<exists>c. round_to binary32 False (b / 1000) = Finite False c \<and> lc \<le> c \<and> c \<le> 33554432
      \<and> rnd_mag binary32 c = c"
    using b assms below_emax exact32 by (intro round_to_between prec_pos) auto
  have fm: "fmul binary32 (of_ulong binary32 p) ML_PER_PULSE = Finite False b"
    using b(1) by (simp add: a(1) ML_PER_PULSE_def)
  have fd: "fdiv binary32 (Finite False b) (Finite False 1000) = round_to binary32 False (b / 1000)"
    by simp
  show ?thesis unfolding fm fd by (fact c)
qed

lemma fp_le_refl: "\<not> is_nan t \<Longrightarrow> fp_le t t"
  by (cases t) auto

lemma unat_ulong_ge: "0 \<le> rat_of_nat (unat (w::ulong))"
  by (rule of_nat_0_le_iff)

lemma volume_Finite:
  "\<exists>c. volumeThisInterval_L (fst (calculate p es st)) = Finite False c \<and> 0 \<le> c \<and> c \<le> 33554432
     \<and> rnd_mag binary32 c = c"
  using volume_between [of 0 p 0 0] unat_ulong_ge [of p]
  by (simp add: calculate_def Let_def rnd_mag_zero)

lemma volumeThisSecond_Finite:
  "\<exists>c. volumeThisSecond p = Finite False c \<and> 0 \<le> c \<and> c \<le> 33554432 \<and> rnd_mag binary32 c = c"
proof -
  obtain a where a: "of_ulong binary32 p = Finite False a" "0 \<le> a" "a \<le> 4294967296"
    using of_ulong_between [OF prec_pos(1) _ _ _ exact32(1) below_emax(1), of 0 p]
      unat_ulong_ge [of p]
    by (auto simp: rnd_mag_zero)
  have "\<exists>b. round_to binary32 False (a * (9 / 4)) = Finite False b \<and> 0 \<le> b \<and> b \<le> 17179869184
      \<and> rnd_mag binary32 b = b"
    using a below_emax exact32 by (intro round_to_between prec_pos) (auto simp: rnd_mag_zero)
  then obtain b where b: "round_to binary32 False (a * (9 / 4)) = Finite False b" "0 \<le> b"
    "b \<le> 17179869184" by auto
  have "\<exists>c. round_to binary64 False (b / 1000) = Finite False c \<and> 0 \<le> c \<and> c \<le> 33554432
      \<and> rnd_mag binary64 c = c"
    using b below_emax exact64 by (intro round_to_between prec_pos) (auto simp: rnd_mag_zero)
  then obtain c where c: "round_to binary64 False (b / 1000) = Finite False c" "0 \<le> c"
    "c \<le> 33554432" by auto
  have d: "\<exists>d. round_to binary32 False c = Finite False d \<and> 0 \<le> d \<and> d \<le> 33554432
      \<and> rnd_mag binary32 d = d"
    using c below_emax exact32 by (intro round_to_between prec_pos) (auto simp: rnd_mag_zero)
  have fm: "fmul binary32 (of_ulong binary32 p) ML_PER_PULSE = Finite False b"
    using b(1) by (simp add: a(1) ML_PER_PULSE_def)
  have fd: "fdiv binary64 (Finite False b) (Finite False 1000) = Finite False c"
    using c(1) by simp
  show ?thesis
    unfolding volumeThisSecond_def fm fd using d by simp
qed

lemma fadd_volume_ge:
  assumes "is_fp binary32 t" and "\<not> is_nan t" and "v = Finite False c" and "0 \<le> c"
  shows "fp_le t (fadd binary32 t v)"
  unfolding assms(3) using prec_pos(1) assms(1,2,4) by (rule fadd_nonneg_ge) simp

section \<open>Facts about the sketches\<close>

text \<open>
  The elapsed time of an interval block is positive in every version, because the block
  runs only after the interval has passed; a call of \<^verbatim>\<open>loop\<close> that runs the block yields
  what \<open>calculate\<close> yields; and the values of the first end-to-end scenario.
\<close>

lemma exact_more:
  "rnd_mag binary32 100 = 100"
  "rnd_mag binary32 (1 / 16) = 1 / 16"
  "rnd_mag binary64 1000 = 1000"
  by code_simp+

lemma ulong_le_unat:
  assumes "(a::ulong) \<le> b"
  shows "rat_of_nat (unat a) \<le> rat_of_nat (unat b)"
proof -
  have "unat a \<le> unat b" using assms by (simp only: word_le_nat_alt)
  then show ?thesis by (simp only: of_nat_le_iff)
qed

lemma elapsed_ble:
  assumes "CALC_INTERVAL \<le> d"
  shows "\<exists>e. fdiv binary32 (of_ulong binary32 d) (Finite False 1000) = Finite False e
    \<and> 1 / 16 \<le> e \<and> e \<le> 4294967296 \<and> rnd_mag binary32 e = e"
proof -
  have "rat_of_nat (unat CALC_INTERVAL) \<le> rat_of_nat (unat d)" using assms by (rule ulong_le_unat)
  then have d: "100 \<le> rat_of_nat (unat d)" by (simp add: CALC_INTERVAL_def)
  obtain a where a: "of_ulong binary32 d = Finite False a" "100 \<le> a" "a \<le> 4294967296"
    using of_ulong_between [OF prec_pos(1) _ d exact_more(1) exact32(1) below_emax(1)] by auto
  have "\<exists>e. round_to binary32 False (a / 1000) = Finite False e \<and> 1 / 16 \<le> e \<and> e \<le> 4294967296
      \<and> rnd_mag binary32 e = e"
    using a below_emax exact32 exact_more by (intro round_to_between prec_pos) auto
  then show ?thesis by (simp add: a(1))
qed

lemma elapsed_v2:
  assumes "CALC_INTERVAL_v1 \<le> d"
  shows "\<exists>e. fcast binary32 (fdiv binary64 (of_ulong binary64 d) (Finite False 1000)) = Finite False e
    \<and> 1 \<le> e \<and> e \<le> 4294967296"
proof -
  have "rat_of_nat (unat CALC_INTERVAL_v1) \<le> rat_of_nat (unat d)" using assms by (rule ulong_le_unat)
  then have d: "1000 \<le> rat_of_nat (unat d)" by (simp add: CALC_INTERVAL_v1_def)
  obtain a where a: "of_ulong binary64 d = Finite False a" "1000 \<le> a" "a \<le> 4294967296"
    using of_ulong_between [OF prec_pos(2) _ d exact_more(3) exact64(1) below_emax(5)] by auto
  have "\<exists>c. round_to binary64 False (a / 1000) = Finite False c \<and> 1 \<le> c \<and> c \<le> 4294967296
      \<and> rnd_mag binary64 c = c"
    using a below_emax exact64 by (intro round_to_between prec_pos) auto
  then obtain c where c: "round_to binary64 False (a / 1000) = Finite False c" "1 \<le> c"
    "c \<le> 4294967296" by auto
  have "\<exists>e. round_to binary32 False c = Finite False e \<and> 1 \<le> e \<and> e \<le> 4294967296
      \<and> rnd_mag binary32 e = e"
    using c below_emax exact32 by (intro round_to_between prec_pos) auto
  then show ?thesis by (auto simp: a(1) c(1))
qed

lemma loop_runs:
  assumes "CALC_INTERVAL \<le> t - lastTime b"
  shows "\<exists>n. snd (loop t b) = Some (fst (calculate (pulseCount b)
           (fdiv binary32 (of_ulong binary32 (t - lastTime b)) (Finite False 1000))
           (b\<lparr>pulseCount := 0\<rparr>)), n)"
    and "flowRate (fst (loop t b)) = flowRate (snd (calculate (pulseCount b)
           (fdiv binary32 (of_ulong binary32 (t - lastTime b)) (Finite False 1000))
           (b\<lparr>pulseCount := 0\<rparr>)))"
    and "totalVolume (fst (loop t b)) = totalVolume (snd (calculate (pulseCount b)
           (fdiv binary32 (of_ulong binary32 (t - lastTime b)) (Finite False 1000))
           (b\<lparr>pulseCount := 0\<rparr>)))"
  using assms by (simp_all add: loop_def Let_def split: prod.splits option.splits)

lemma calculate_sel:
  "pulses (fst (calculate p es st)) = p"
  "elapsedSeconds (fst (calculate p es st)) = es"
  "frequency (fst (calculate p es st)) =
     (if fp_gt es zero then fdiv binary32 (of_ulong binary32 p) es else zero)"
  "volumeThisInterval_L (fst (calculate p es st)) =
     fdiv binary32 (fmul binary32 (of_ulong binary32 p) ML_PER_PULSE) (Finite False 1000)"
  "volumeThisInterval_mL (fst (calculate p es st)) =
     fmul binary32 (volumeThisInterval_L (fst (calculate p es st))) (Finite False 1000)"
  "flowRate (snd (calculate p es st)) =
     fdiv binary32 (frequency (fst (calculate p es st))) (calibrationFactor st)"
  "totalVolume (snd (calculate p es st)) =
     fadd binary32 (totalVolume st) (volumeThisInterval_L (fst (calculate p es st)))"
  "calibrationFactor (snd (calculate p es st)) = calibrationFactor st"
  by (simp_all add: calculate_def elapsed_divisor_def Let_def)

lemma fp_gt_zero_nonzero: "fp_gt es zero \<Longrightarrow> \<not> is_zero es"
  by (cases es) (auto simp: fp_gt_def zero_def sval_def split: if_splits)

lemma fp_eq_zero_not_gt: "fp_eq es zero \<Longrightarrow> \<not> fp_gt es zero"
  by (cases es) (auto simp: fp_gt_def zero_def sval_def split: if_splits)

lemma of_ulong_50: "of_ulong binary32 50 = Finite False 50"
  unfolding of_ulong_def by simp code_simp

lemma of_ulong_1000: "of_ulong binary32 1000 = Finite False 1000"
  unfolding of_ulong_def by simp code_simp

lemma scenario_values:
  "fdiv binary32 (Finite False 1000) (Finite False 1000) = Finite False 1"
  "fdiv binary32 (Finite False 50) (Finite False 1) = Finite False 50"
  "fdiv binary32 (Finite False 50) (Finite False 5) = Finite False 10"
  "fmul binary32 (Finite False 50) ML_PER_PULSE = Finite False (225 / 2)"
  "fdiv binary32 (Finite False (225 / 2)) (Finite False 1000) = Finite False (7549747 / 67108864)"
  "fmul binary32 (Finite False (7549747 / 67108864)) (Finite False 1000) = Finite False (225 / 2)"
  "fadd binary32 (Finite False 0) (Finite False (7549747 / 67108864)) = Finite False (7549747 / 67108864)"
  "fadd binary32 (Finite False 16777216) (Finite False (7549747 / 67108864)) = Finite False 16777216"
  "round_to binary32 False (9 / 80) = Finite False (7549747 / 67108864)"
  by code_simp+

lemma interval_guard_1000: "CALC_INTERVAL \<le> 1000"
  by (simp add: CALC_INTERVAL_def)

lemma loop_scenario_A:
  assumes "t - lastTime b = 1000" and "pulseCount b = 50" and "calibrationFactor b = Finite False 5"
  shows "\<exists>smp n. snd (loop t b) = Some (smp, n)
     \<and> elapsedSeconds smp = Finite False 1
     \<and> frequency smp = Finite False 50
     \<and> flowRate (fst (loop t b)) = Finite False 10
     \<and> volumeThisInterval_mL smp = Finite False (225 / 2)
     \<and> volumeThisInterval_L smp = Finite False (7549747 / 67108864)
     \<and> round_to binary32 False (9 / 80) = Finite False (7549747 / 67108864)
     \<and> totalVolume (fst (loop t b)) = fadd binary32 (totalVolume b) (Finite False (7549747 / 67108864))
     \<and> (totalVolume b = zero \<longrightarrow> totalVolume (fst (loop t b)) = Finite False (7549747 / 67108864))"
proof -
  have g: "CALC_INTERVAL \<le> t - lastTime b" using assms(1) interval_guard_1000 by simp
  have es: "fdiv binary32 (of_ulong binary32 (t - lastTime b)) (Finite False 1000) = Finite False 1"
    by (simp only: assms(1) of_ulong_1000 scenario_values)
  have pos: "fp_gt (Finite False 1) zero" by (simp add: fp_gt_def zero_def sval_def)
  note r = loop_runs [OF g, unfolded es assms(2)]
  from r(1) obtain n where n: "snd (loop t b)
      = Some (fst (calculate 50 (Finite False 1) (b\<lparr>pulseCount := 0\<rparr>)), n)" by auto
  have f: "frequency (fst (calculate 50 (Finite False 1) (b\<lparr>pulseCount := 0\<rparr>))) = Finite False 50"
    by (simp only: calculate_sel pos if_True of_ulong_50 scenario_values)
  have v: "volumeThisInterval_L (fst (calculate 50 (Finite False 1) (b\<lparr>pulseCount := 0\<rparr>)))
      = Finite False (7549747 / 67108864)"
    by (simp only: calculate_sel of_ulong_50 scenario_values)
  have m: "volumeThisInterval_mL (fst (calculate 50 (Finite False 1) (b\<lparr>pulseCount := 0\<rparr>)))
      = Finite False (225 / 2)"
    by (simp only: calculate_sel(5) v scenario_values)
  have fr: "flowRate (fst (loop t b)) = Finite False 10"
    by (simp add: r(2) calculate_sel(6) f assms(3) scenario_values del: fdiv.simps)
  have tv: "totalVolume (fst (loop t b))
      = fadd binary32 (totalVolume b) (Finite False (7549747 / 67108864))"
    by (simp add: r(3) calculate_sel(7) v del: fadd.simps)
  have tz: "totalVolume b = zero \<longrightarrow> totalVolume (fst (loop t b)) = Finite False (7549747 / 67108864)"
    by (simp add: tv zero_def scenario_values del: fadd.simps)
  show ?thesis
    using n f v m fr tv tz scenario_values(9) by (simp add: calculate_sel(2))
qed

lemma scenario_state:
  "1000 - lastTime (ble_globals\<lparr>pulseCount := 50\<rparr>) = 1000"
  "pulseCount (ble_globals\<lparr>pulseCount := 50\<rparr>) = 50"
  "calibrationFactor (ble_globals\<lparr>pulseCount := 50\<rparr>) = Finite False 5"
  "totalVolume (ble_globals\<lparr>pulseCount := 50\<rparr>) = zero"
  by (simp_all add: ble_globals_def)

section \<open>The invariant of \<^verbatim>\<open>flow_control.ino\<close>\<close>

text \<open>
  A binary32 number below a power of two stays one last place below it, so a total that
  has reached \<open>2 ^ 60\<close> absorbs every further interval volume. Hence the total is finite
  and non-negative in every reachable state, and the calibration factor is 5.
\<close>

lemma below_pow_gap:
  assumes p: "0 < prec f" and e: "emin f \<le> k - int (prec f)" and r: "rnd_mag f m = m"
    and m0: "0 \<le> m" and lt: "m < 2 powi k"
  shows "m \<le> 2 powi k - 2 powi (k - int (prec f))"
proof -
  have half: "(2::rat) powi k = 2 * 2 powi (k - 1)"
    using power_int_add [of "2::rat" 1 "k - 1"] by simp
  have small: "(2::rat) powi (k - int (prec f)) \<le> 2 powi (k - 1)"
    using p by (intro power_int_increasing) auto
  show ?thesis
  proof (cases "m < 2 powi (k - 1)")
    case True
    then show ?thesis using half small by simp
  next
    case False
    then have ge: "2 powi (k - 1) \<le> m" by simp
    then have mpos: "0 < m" using zero_less_power_int [of "2::rat" "k - 1"] by linarith
    have "k - 1 \<le> ilog2 m" using mpos ge by (rule ilog2_ge)
    moreover have "ilog2 m < k" using mpos lt by (rule ilog2_less)
    ultimately have il: "ilog2 m = k - 1" by simp
    have g: "grid f m = k - int (prec f)"
      using e by (simp add: grid_def il max_def)
    define j where "j = rhe (m / 2 powi (k - int (prec f)))"
    have mj: "m = of_int j * 2 powi (k - int (prec f))"
      using r by (simp add: rnd_mag_def g Let_def j_def)
    have "(2::rat) powi k = 2 powi int (prec f) * 2 powi (k - int (prec f))"
      using power_int_add [of "2::rat" "int (prec f)" "k - int (prec f)"] by simp
    then have "of_int j * 2 powi (k - int (prec f)) < (2::rat) ^ prec f * 2 powi (k - int (prec f))"
      using lt mj by simp
    then have "(of_int j :: rat) < 2 ^ prec f"
      by (simp add: mult_less_cancel_right)
    then have "(of_int j :: rat) < of_int (2 ^ prec f)" by simp
    then have "j < 2 ^ prec f" by (simp only: of_int_less_iff)
    then have "j \<le> 2 ^ prec f - 1" by simp
    then have "(of_int j :: rat) \<le> of_int (2 ^ prec f - 1)" by (simp only: of_int_le_iff)
    then have "(of_int j :: rat) * 2 powi (k - int (prec f))
        \<le> of_int (2 ^ prec f - 1) * 2 powi (k - int (prec f))"
      by (intro mult_right_mono) auto
    also have "\<dots> = 2 powi int (prec f) * 2 powi (k - int (prec f)) - 2 powi (k - int (prec f))"
      by (simp add: algebra_simps)
    also have "\<dots> = 2 powi k - 2 powi (k - int (prec f))"
      using power_int_add [of "2::rat" "int (prec f)" "k - int (prec f)"] by simp
    finally show ?thesis using mj by simp
  qed
qed

lemma exact_top:
  "rnd_mag binary32 1152921504606846976 = 1152921504606846976"
  "rnd_mag binary32 (1152921504606846976 + 33554432) = 1152921504606846976"
  by code_simp+

lemma total_gap:
  assumes "rnd_mag binary32 m = m" and "0 \<le> m" and "m < 1152921504606846976"
  shows "m \<le> 1152921504606846976 - 68719476736"
  using below_pow_gap [of binary32 60 m] assms by (simp add: binary32_def)

lemma total_ok_step:
  assumes t: "total_ok t" and c: "0 \<le> c" "c \<le> 33554432"
  shows "total_ok (fadd binary32 t (Finite False c))"
proof -
  obtain m where tm: "t = Finite False m" and m: "0 \<le> m" "m \<le> 1152921504606846976"
      "rnd_mag binary32 m = m"
    using t by (cases t) auto
  have w: "m + c \<le> 1152921504606846976 + 33554432" using m c by simp
  have top: "rnd_mag binary32 (m + c) \<le> 1152921504606846976"
  proof (cases "m < 1152921504606846976")
    case True
    then have "m + c \<le> 1152921504606846976" using total_gap [OF m(3) m(1)] c by simp
    from rnd_mag_mono [OF _ this prec_pos(1)] show ?thesis using m c exact_top(1) by simp
  next
    case False
    from rnd_mag_mono [OF _ w prec_pos(1)] show ?thesis using m c exact_top(2) by simp
  qed
  have n: "0 \<le> rnd_mag binary32 (m + c)" using m c by (intro rnd_mag_nonneg) simp
  have i: "rnd_mag binary32 (rnd_mag binary32 (m + c)) = rnd_mag binary32 (m + c)"
    using m c prec_pos(1) by (intro rnd_mag_idem) simp_all
  have lt: "rnd_mag binary32 (m + c) < 2 powi (emax binary32)"
    using top by (simp add: binary32_def)
  have fa: "fadd binary32 t (Finite False c)
      = (if m + c = 0 then Finite False 0 else round_to binary32 False (m + c))"
    using m c by (simp add: tm Let_def sval_simps abs_if)
  show ?thesis
    using top n i lt by (simp add: fa round_to_def Let_def rnd_mag_zero)
qed

lemma flow_inv_calculate:
  assumes "flow_inv st"
  shows "flow_inv (snd (calculate p es st))"
proof -
  obtain c where c: "volumeThisInterval_L (fst (calculate p es st)) = Finite False c" "0 \<le> c"
      "c \<le> 33554432"
    using volume_Finite [of p es st] by auto
  have "total_ok (fadd binary32 (totalVolume st) (Finite False c))"
    using assms c by (intro total_ok_step) (auto simp: flow_inv_def)
  then show ?thesis
    using assms by (simp add: flow_inv_def calculate_sel(7,8) c(1) del: fadd.simps)
qed

lemma flow_inv_cong:
  "calibrationFactor a = calibrationFactor b \<Longrightarrow> totalVolume a = totalVolume b \<Longrightarrow>
   flow_inv a = flow_inv b"
  by (simp add: flow_inv_def)

lemma flow_inv_loop:
  assumes "flow_inv b"
  shows "flow_inv (fst (loop t b))"
proof (cases "CALC_INTERVAL \<le> t - lastTime b")
  case True
  let ?c = "calculate (pulseCount b)
     (fdiv binary32 (of_ulong binary32 (t - lastTime b)) (Finite False 1000)) (b\<lparr>pulseCount := 0\<rparr>)"
  have "flow_inv (b\<lparr>pulseCount := 0\<rparr>)" using assms by (simp add: flow_inv_def)
  then have "flow_inv (snd ?c)" by (rule flow_inv_calculate)
  moreover have "calibrationFactor (fst (loop t b)) = calibrationFactor (snd ?c)"
    using True by (simp add: loop_def Let_def split: prod.splits option.splits)
  moreover have "totalVolume (fst (loop t b)) = totalVolume (snd ?c)"
    using True by (rule loop_runs(3))
  ultimately show ?thesis by (simp add: flow_inv_def)
next
  case False
  then show ?thesis using assms by (simp add: loop_def)
qed

lemma reachable_flow_inv: "reachable b \<Longrightarrow> flow_inv b"
proof (induction rule: reachable.induct)
  case (start now)
  show ?case
    by (simp add: flow_inv_def setup_sketch_def setupBLE_def ble_globals_def zero_def rnd_mag_zero)
next
  case (interrupt st)
  then show ?case by (simp add: flow_inv_def pulseCounter_def)
next
  case (connect st)
  then show ?case by (simp add: flow_inv_def onConnect_def)
next
  case (disconnect st)
  then show ?case by (simp add: flow_inv_def onDisconnect_def)
next
  case (iteration st currentTime)
  from iteration.IH show ?case by (rule flow_inv_loop)
qed

section \<open>Intervals without pulses and without elapsed time\<close>

lemma of_ulong_0: "of_ulong f 0 = Finite False 0"
  by (simp add: of_ulong_def round_to_zero)

lemma zero_volume:
  "fdiv binary32 (fmul binary32 (Finite False 0) ML_PER_PULSE) (Finite False 1000) = zero"
  "fmul binary32 zero (Finite False 1000) = zero"
  "fdiv binary32 zero (Finite False 5) = zero"
  by (simp_all add: ML_PER_PULSE_def zero_def round_to_zero)

lemma zero_over_positive:
  assumes "is_fp binary32 es" and "fp_gt es zero"
  shows "fdiv binary32 (Finite False 0) es = zero"
proof (cases es)
  case (Finite s m)
  then have "0 \<le> m" using assms(1) by simp
  moreover have "0 < sval s m" using assms(2) by (simp add: Finite fp_gt_def zero_def sval_simps)
  ultimately have "\<not> s" and "m \<noteq> 0" by (auto simp: sval_def split: if_splits)
  then show ?thesis by (simp add: Finite zero_def round_to_zero)
next
  case (Infinity s)
  then show ?thesis using assms(2) by (simp add: fp_gt_def zero_def)
next
  case NaN
  then show ?thesis using assms(2) by (simp add: fp_gt_def zero_def)
qed

lemma total_ok_add_zero: "total_ok t \<Longrightarrow> fadd binary32 t zero = t"
  by (cases t) (auto simp: zero_def sval_simps round_to_def Let_def binary32_def)

lemma calculate_zero_pulses:
  assumes "flow_inv st" and "is_fp binary32 es" and "fp_gt es zero"
  shows "frequency (fst (calculate 0 es st)) = zero
     \<and> flowRate (snd (calculate 0 es st)) = zero
     \<and> volumeThisInterval_L (fst (calculate 0 es st)) = zero
     \<and> volumeThisInterval_mL (fst (calculate 0 es st)) = zero
     \<and> totalVolume (snd (calculate 0 es st)) = totalVolume st"
proof -
  have f: "frequency (fst (calculate 0 es st)) = zero"
    using assms(3) zero_over_positive [OF assms(2,3)]
    by (simp add: calculate_sel(3) of_ulong_0 del: fdiv.simps)
  have c: "calibrationFactor st = Finite False 5" and t: "total_ok (totalVolume st)"
    using assms(1) by (simp_all add: flow_inv_def)
  have r: "flowRate (snd (calculate 0 es st)) = zero"
    by (simp only: calculate_sel(6) f c zero_volume)
  have v: "volumeThisInterval_L (fst (calculate 0 es st)) = zero"
    by (simp only: calculate_sel(4) of_ulong_0 zero_volume)
  have m: "volumeThisInterval_mL (fst (calculate 0 es st)) = zero"
    by (simp only: calculate_sel(5) v zero_volume)
  have tv: "totalVolume (snd (calculate 0 es st)) = totalVolume st"
    using total_ok_add_zero [OF t] by (simp only: calculate_sel(7) v)
  from f r v m tv show ?thesis by simp
qed

lemma start_state:
  "reachable (setup_sketch 0 ble_globals)"
  "pulseCount (setup_sketch 0 ble_globals) = 0"
  "CALC_INTERVAL \<le> 1000 - lastTime (setup_sketch 0 ble_globals)"
  "totalVolume (setup_sketch 0 ble_globals) = zero"
  by (rule reachable.start)
    (simp_all add: setup_sketch_def setupBLE_def ble_globals_def CALC_INTERVAL_def)

lemma flow_inv_globals: "flow_inv globals"
  by (simp add: flow_inv_def globals_def zero_def rnd_mag_zero)

lemma one_second: "is_fp binary32 (Finite False 1)" "fp_gt (Finite False 1) zero"
  using exact32(2) by (simp_all add: round_to_def Let_def binary32_def fp_gt_def zero_def sval_def)




lemma of_ulong_1: "of_ulong binary32 1 = Finite False 1"
  unfolding of_ulong_def by simp code_simp

lemma one_pulse_volume:
  "fdiv binary32 (fmul binary32 (Finite False 1) ML_PER_PULSE) (Finite False 1000)
     = Finite False (2415919 / 1073741824)"
  by code_simp

section \<open>Properties of the formatted record\<close>

text \<open>
  Decimal digits, the shape of a fixed-point field, splitting at commas, the magnitudes
  of the four floating-point fields in a reachable state, and the record of a first
  interval with one pulse.
\<close>

lemma digit_is_digit: "d < 10 \<Longrightarrow> is_digit (digit d)"
  unfolding is_digit_def digit_def by (rule nth_mem) simp

lemma is_digit_plain: "is_digit c \<Longrightarrow> c \<noteq> CHR '','' \<and> c \<noteq> CHR ''-'' \<and> c \<noteq> CHR ''.''"
  by (auto simp: is_digit_def)

lemma dec_digits: "list_all is_digit (dec n)"
proof (induction n rule: dec.induct)
  case (1 n)
  show ?case
  proof (cases "n < 10")
    case True
    then show ?thesis by (subst dec.simps) (simp add: digit_is_digit)
  next
    case False
    then show ?thesis using 1 by (subst dec.simps) (simp add: digit_is_digit)
  qed
qed

lemma dec_nonempty: "dec n \<noteq> []"
  by (subst dec.simps) simp

lemma dec_length: "n < 10 ^ k \<Longrightarrow> 0 < k \<Longrightarrow> length (dec n) \<le> k"
proof (induction n arbitrary: k rule: dec.induct)
  case (1 n)
  show ?case
  proof (cases "n < 10")
    case True
    then show ?thesis using "1.prems" by (subst dec.simps) simp
  next
    case False
    obtain j where j: "k = Suc j" using "1.prems"(2) by (cases k) auto
    have "0 < j" using False "1.prems"(1) j by (cases j) auto
    moreover have "n div 10 < 10 ^ j" using "1.prems"(1) j by (simp add: less_mult_imp_div_less mult.commute)
    ultimately have "length (dec (n div 10)) \<le> j" using "1.IH" [OF False] by simp
    then show ?thesis using False j by (subst dec.simps) simp
  qed
qed

lemma split_no_comma: "CHR '','' \<notin> set a \<Longrightarrow> split_commas a = [a]"
  by (induction a) auto

lemma split_field: "CHR '','' \<notin> set a \<Longrightarrow> split_commas (a @ CHR '','' # r) = a # split_commas r"
  by (induction a) auto

lemma digits_no_comma: "list_all is_digit s \<Longrightarrow> CHR '','' \<notin> set s"
  using is_digit_plain by (auto simp: list_all_iff)


lemma fraction_digits:
  assumes "0 < d"
  shows "length (replicate (d - length (dec (k mod 10 ^ d))) (CHR ''0'') @ dec (k mod 10 ^ d)) = d"
    and "list_all is_digit (replicate (d - length (dec (k mod 10 ^ d))) (CHR ''0'') @ dec (k mod 10 ^ d))"
proof -
  have "length (dec (k mod 10 ^ d)) \<le> d" using assms by (intro dec_length) simp_all
  then show "length (replicate (d - length (dec (k mod 10 ^ d))) (CHR ''0'') @ dec (k mod 10 ^ d)) = d"
    by simp
  have "is_digit (CHR ''0'')" by (simp add: is_digit_def)
  then show "list_all is_digit (replicate (d - length (dec (k mod 10 ^ d))) (CHR ''0'') @ dec (k mod 10 ^ d))"
    using dec_digits [of "k mod 10 ^ d"] by (auto simp: list_all_iff)
qed

lemma is_fixed_shape:
  assumes "is_unsigned ip" and "length fr = d" and "list_all is_digit fr"
  shows "is_fixed d (ip @ CHR ''.'' # fr)" and "is_fixed d (CHR ''-'' # ip @ CHR ''.'' # fr)"
proof -
  obtain c cs where ip: "ip = c # cs" and c: "is_digit c"
    using assms(1) by (cases ip) (auto simp: is_unsigned_def)
  have nm: "c \<noteq> CHR ''-''" using is_digit_plain [OF c] by simp
  have u: "is_unsigned (take (length ip) (ip @ CHR ''.'' # fr))"
    "(ip @ CHR ''.'' # fr) ! length ip = CHR ''.''"
    "drop (Suc (length ip)) (ip @ CHR ''.'' # fr) = fr"
    using assms(1) by simp_all
  have n: "length (ip @ CHR ''.'' # fr) - d - 1 = length ip"
    "length (ip @ CHR ''.'' # fr) - d = Suc (length ip)"
    "d + 2 \<le> length (ip @ CHR ''.'' # fr)"
    using assms(2) ip by simp_all
  have a: "is_fixed d (ip @ CHR ''.'' # fr)"
    unfolding is_fixed_def Let_def
    using nm u n assms(3) by (simp add: ip)
  have b: "is_fixed d (CHR ''-'' # ip @ CHR ''.'' # fr)"
    unfolding is_fixed_def Let_def
    using u n assms(3) by simp
  from a show "is_fixed d (ip @ CHR ''.'' # fr)" .
  from b show "is_fixed d (CHR ''-'' # ip @ CHR ''.'' # fr)" .
qed

lemma fmt_f_fixed:
  assumes "0 < d"
  shows "is_fixed d (fmt_f d (Finite s m))"
proof -
  define k where "k = nat (rhe (m * 10 ^ d))"
  define ip where "ip = dec (k div 10 ^ d)"
  define fr where "fr = replicate (d - length (dec (k mod 10 ^ d))) (CHR ''0'') @ dec (k mod 10 ^ d)"
  have f: "fmt_f d (Finite s m) = (if s then ''-'' else []) @ ip @ CHR ''.'' # fr"
    by (simp add: k_def ip_def fr_def Let_def)
  have 1: "is_unsigned ip" by (simp add: ip_def is_unsigned_def dec_nonempty dec_digits)
  have 2: "length fr = d" "list_all is_digit fr"
    unfolding fr_def using assms by (rule fraction_digits)+
  show ?thesis
    unfolding f using is_fixed_shape [OF 1 2] by simp
qed

lemma fmt_f_plain:
  assumes "0 < d"
  shows "list_all (\<lambda>c. is_digit c \<or> c = CHR ''.'') (fmt_f d (Finite False m))"
  using fraction_digits(2) [OF assms] dec_digits
  by (auto simp: Let_def list_all_iff)

lemma plain_no_comma:
  "list_all (\<lambda>c. is_digit c \<or> c = CHR ''.'') s \<Longrightarrow> CHR '','' \<notin> set s"
  using is_digit_plain by (auto simp: list_all_iff)

lemma fmt_f_length:
  assumes "0 \<le> m" and "m \<le> rat_of_nat B" and "B < 10 ^ j" and "0 < j" and "0 < d"
  shows "length (fmt_f d (Finite False m)) \<le> j + 1 + d"
proof -
  define k where "k = nat (rhe (m * 10 ^ d))"
  have "m * 10 ^ d \<le> rat_of_nat B * 10 ^ d" using assms(2) by (intro mult_right_mono) auto
  also have "\<dots> = of_int (int (B * 10 ^ d))" by simp
  finally have "rhe (m * 10 ^ d) \<le> rhe (of_int (int (B * 10 ^ d)))" by (rule rhe_mono)
  then have "rhe (m * 10 ^ d) \<le> int (B * 10 ^ d)" by (simp only: rhe_of_int)
  then have "k \<le> B * 10 ^ d" by (simp only: k_def nat_le_iff)
  then have "k div 10 ^ d \<le> (B * 10 ^ d) div 10 ^ d" by (rule div_le_mono)
  then have "k div 10 ^ d \<le> B" by simp
  then have "k div 10 ^ d < 10 ^ j" using assms(3) by simp
  then have "length (dec (k div 10 ^ d)) \<le> j" using assms(4) by (rule dec_length)
  moreover have "length (replicate (d - length (dec (k mod 10 ^ d))) (CHR ''0'') @ dec (k mod 10 ^ d)) = d"
    using assms(5) by (rule fraction_digits)
  ultimately show ?thesis
    by (simp add: k_def [symmetric] Let_def)
qed

lemma exact36:
  "rnd_mag binary32 68719476736 = 68719476736"
  "(68719476736::rat) < 2 powi (emax binary32)"
  by code_simp (simp add: binary32_def)

lemma loop_values:
  assumes inv: "flow_inv b" and g: "CALC_INTERVAL \<le> d"
  shows "\<exists>f r v tt.
      frequency (fst (calculate p (fdiv binary32 (of_ulong binary32 d) (Finite False 1000)) b))
        = Finite False f \<and> 0 \<le> f \<and> f \<le> 68719476736
    \<and> flowRate (snd (calculate p (fdiv binary32 (of_ulong binary32 d) (Finite False 1000)) b))
        = Finite False r \<and> 0 \<le> r \<and> r \<le> 68719476736
    \<and> volumeThisInterval_mL (fst (calculate p (fdiv binary32 (of_ulong binary32 d) (Finite False 1000)) b))
        = Finite False v \<and> 0 \<le> v \<and> v \<le> 34359738368
    \<and> totalVolume (snd (calculate p (fdiv binary32 (of_ulong binary32 d) (Finite False 1000)) b))
        = Finite False tt \<and> 0 \<le> tt \<and> tt \<le> 1152921504606846976"
proof -
  obtain e where e: "fdiv binary32 (of_ulong binary32 d) (Finite False 1000) = Finite False e"
      "1 / 16 \<le> e"
    using elapsed_ble [OF g] by auto
  have pos: "fp_gt (Finite False e) zero" "e \<noteq> 0" "0 < e"
    using e(2) by (simp_all add: fp_gt_def zero_def sval_def)
  obtain a where a: "of_ulong binary32 p = Finite False a" "0 \<le> a" "a \<le> 4294967296"
    using of_ulong_between [OF prec_pos(1) _ _ _ exact32(1) below_emax(1), of 0 p]
      unat_ulong_ge [of p]
    by (auto simp: rnd_mag_zero)
  have "a \<le> 68719476736 * e" using a(3) e(2) by simp
  then have q: "a / e \<le> 68719476736" using pos(3) by (simp add: pos_divide_le_eq)
  have "\<exists>f. round_to binary32 False (a / e) = Finite False f \<and> 0 \<le> f \<and> f \<le> 68719476736
      \<and> rnd_mag binary32 f = f"
    using a(2) pos(3) q exact36 by (intro round_to_between prec_pos) (auto simp: rnd_mag_zero)
  then obtain f where f: "round_to binary32 False (a / e) = Finite False f" "0 \<le> f"
      "f \<le> 68719476736" by auto
  have fr: "frequency (fst (calculate p (Finite False e) b)) = Finite False f"
    using pos f(1) by (simp add: calculate_sel(3) a(1))
  have c5: "calibrationFactor b = Finite False 5" using inv by (simp add: flow_inv_def)
  have "\<exists>r. round_to binary32 False (f / 5) = Finite False r \<and> 0 \<le> r \<and> r \<le> 68719476736
      \<and> rnd_mag binary32 r = r"
    using f exact36 by (intro round_to_between prec_pos) (auto simp: rnd_mag_zero)
  then obtain r where r: "round_to binary32 False (f / 5) = Finite False r" "0 \<le> r"
      "r \<le> 68719476736" by auto
  have rt: "flowRate (snd (calculate p (Finite False e) b)) = Finite False r"
    using r(1) by (simp add: calculate_sel(6) fr c5)
  obtain c where c: "volumeThisInterval_L (fst (calculate p (Finite False e) b)) = Finite False c"
      "0 \<le> c" "c \<le> 33554432"
    using volume_Finite [of p "Finite False e" b] by auto
  have "\<exists>v. round_to binary32 False (c * 1000) = Finite False v \<and> 0 \<le> v \<and> v \<le> 34359738368
      \<and> rnd_mag binary32 v = v"
    using c exact32 below_emax by (intro round_to_between prec_pos) (auto simp: rnd_mag_zero)
  then obtain v where v: "round_to binary32 False (c * 1000) = Finite False v" "0 \<le> v"
      "v \<le> 34359738368" by auto
  have ml: "volumeThisInterval_mL (fst (calculate p (Finite False e) b)) = Finite False v"
    using v(1) by (simp add: calculate_sel(5) c(1))
  have "total_ok (totalVolume (snd (calculate p (Finite False e) b)))"
    using flow_inv_calculate [OF inv, of p "Finite False e"] by (simp add: flow_inv_def)
  then obtain tt where tt: "totalVolume (snd (calculate p (Finite False e) b)) = Finite False tt"
      "0 \<le> tt" "tt \<le> 1152921504606846976"
    by (cases "totalVolume (snd (calculate p (Finite False e) b))") auto
  show ?thesis
    unfolding e(1) using fr f(2,3) rt r(2,3) ml v(2,3) tt by blast
qed

lemma fmt_lu_props:
  "is_unsigned (fmt_lu p)" "length (fmt_lu p) \<le> 10" "CHR '','' \<notin> set (fmt_lu p)"
  "list_all (\<lambda>c. is_digit c \<or> c = CHR ''.'') (fmt_lu p)"
proof -
  show "is_unsigned (fmt_lu p)" by (simp add: fmt_lu_def is_unsigned_def dec_nonempty dec_digits)
  have "unat p < 2 ^ 32" using unsigned_less [of p, where ?'a = nat] by simp
  then have "unat p < 10 ^ 10" by simp
  then show "length (fmt_lu p) \<le> 10" unfolding fmt_lu_def by (rule dec_length) simp
  show "CHR '','' \<notin> set (fmt_lu p)" unfolding fmt_lu_def using dec_digits by (rule digits_no_comma)
  show "list_all (\<lambda>c. is_digit c \<or> c = CHR ''.'') (fmt_lu p)"
    using dec_digits [of "unat p"] by (auto simp: fmt_lu_def list_all_iff)
qed

lemma payload_record:
  assumes "0 \<le> f" "f \<le> 68719476736" "0 \<le> r" "r \<le> 68719476736"
    "0 \<le> v" "v \<le> 34359738368" "0 \<le> tt" "tt \<le> 1152921504606846976"
  shows "snprintf_payload 128 p (Finite False f) (Finite False r) (Finite False v) (Finite False tt)
      = fmt_lu p @ '','' @ fmt_f 2 (Finite False f) @ '','' @ fmt_f 3 (Finite False r) @ '',''
        @ fmt_f 2 (Finite False v) @ '','' @ fmt_f 4 (Finite False tt)"
    and "split_commas (snprintf_payload 128 p (Finite False f) (Finite False r) (Finite False v)
           (Finite False tt))
      = [fmt_lu p, fmt_f 2 (Finite False f), fmt_f 3 (Finite False r), fmt_f 2 (Finite False v),
         fmt_f 4 (Finite False tt)]"
    and "list_all (\<lambda>c. is_digit c \<or> c = CHR ''.'' \<or> c = CHR '','')
           (snprintf_payload 128 p (Finite False f) (Finite False r) (Finite False v) (Finite False tt))"
proof -
  let ?s = "fmt_lu p @ '','' @ fmt_f 2 (Finite False f) @ '','' @ fmt_f 3 (Finite False r) @ '',''
        @ fmt_f 2 (Finite False v) @ '','' @ fmt_f 4 (Finite False tt)"
  have l1: "length (fmt_f 2 (Finite False f)) \<le> 11 + 1 + 2"
    using assms(1,2) by (intro fmt_f_length [where B = 68719476736]) simp_all
  have l2: "length (fmt_f 3 (Finite False r)) \<le> 11 + 1 + 3"
    using assms(3,4) by (intro fmt_f_length [where B = 68719476736]) simp_all
  have l3: "length (fmt_f 2 (Finite False v)) \<le> 11 + 1 + 2"
    using assms(5,6) by (intro fmt_f_length [where B = 34359738368]) simp_all
  have l4: "length (fmt_f 4 (Finite False tt)) \<le> 19 + 1 + 4"
    using assms(7,8) by (intro fmt_f_length [where B = 1152921504606846976]) simp_all
  have "length ?s \<le> 127"
    using fmt_lu_props(2) [of p] l1 l2 l3 l4 by (simp del: fmt_f.simps)
  then show eq: "snprintf_payload 128 p (Finite False f) (Finite False r) (Finite False v)
      (Finite False tt) = ?s"
    by (simp add: snprintf_payload_def del: fmt_f.simps)
  have nc: "CHR '','' \<notin> set (fmt_f 2 (Finite False f))" "CHR '','' \<notin> set (fmt_f 3 (Finite False r))"
    "CHR '','' \<notin> set (fmt_f 2 (Finite False v))" "CHR '','' \<notin> set (fmt_f 4 (Finite False tt))"
    by (rule plain_no_comma, rule fmt_f_plain, simp)+
  show "split_commas (snprintf_payload 128 p (Finite False f) (Finite False r) (Finite False v)
           (Finite False tt))
      = [fmt_lu p, fmt_f 2 (Finite False f), fmt_f 3 (Finite False r), fmt_f 2 (Finite False v),
         fmt_f 4 (Finite False tt)]"
    unfolding eq using nc fmt_lu_props(3) [of p]
    by (simp add: split_field split_no_comma del: fmt_f.simps)
  have pl: "list_all (\<lambda>c. is_digit c \<or> c = CHR ''.'') (fmt_f 2 (Finite False f))"
    "list_all (\<lambda>c. is_digit c \<or> c = CHR ''.'') (fmt_f 3 (Finite False r))"
    "list_all (\<lambda>c. is_digit c \<or> c = CHR ''.'') (fmt_f 2 (Finite False v))"
    "list_all (\<lambda>c. is_digit c \<or> c = CHR ''.'') (fmt_f 4 (Finite False tt))"
    by (rule fmt_f_plain, simp)+
  show "list_all (\<lambda>c. is_digit c \<or> c = CHR ''.'' \<or> c = CHR '','')
           (snprintf_payload 128 p (Finite False f) (Finite False r) (Finite False v) (Finite False tt))"
    unfolding eq using pl fmt_lu_props(4) [of p]
    by (auto simp: list_all_iff simp del: fmt_f.simps)
qed

lemma loop_notifies:
  assumes "CALC_INTERVAL \<le> t - lastTime b" and "deviceConnected b" and "pCharacteristic b \<noteq> None"
  shows "snd (loop t b) = Some (fst (calculate (pulseCount b)
             (fdiv binary32 (of_ulong binary32 (t - lastTime b)) (Finite False 1000))
             (b\<lparr>pulseCount := 0\<rparr>)),
           Some (snprintf_payload 128 (pulseCount b)
             (frequency (fst (calculate (pulseCount b)
                (fdiv binary32 (of_ulong binary32 (t - lastTime b)) (Finite False 1000))
                (b\<lparr>pulseCount := 0\<rparr>))))
             (flowRate (fst (loop t b)))
             (volumeThisInterval_mL (fst (calculate (pulseCount b)
                (fdiv binary32 (of_ulong binary32 (t - lastTime b)) (Finite False 1000))
                (b\<lparr>pulseCount := 0\<rparr>))))
             (totalVolume (fst (loop t b)))))"
    and "map_option snd (snd (loop t b)) = Some (pCharacteristic (fst (loop t b)))"
  using assms
  by (auto simp: loop_def Let_def calculate_def split: prod.splits option.splits
           simp del: fdiv.simps fmul.simps fadd.simps)

lemma fmt_lu_1: "fmt_lu 1 = ''1''"
  unfolding fmt_lu_def by simp code_simp

lemma payload_values:
  "fdiv binary32 (Finite False 1) (Finite False 1) = Finite False 1"
  "fdiv binary32 (Finite False 1) (Finite False 5) = Finite False (13421773 / 67108864)"
  "fmul binary32 (Finite False (2415919 / 1073741824)) (Finite False 1000) = Finite False (9 / 4)"
  "fadd binary32 (Finite False 0) (Finite False (2415919 / 1073741824))
     = Finite False (2415919 / 1073741824)"
  by code_simp+

lemma payload_strings:
  "fmt_f 2 (Finite False 1) = ''1.00''"
  "fmt_f 3 (Finite False (13421773 / 67108864)) = ''0.200''"
  "fmt_f 2 (Finite False (9 / 4)) = ''2.25''"
  "fmt_f 4 (Finite False (2415919 / 1073741824)) = ''0.0022''"
  by code_simp+

lemma connected_state:
  "reachable (onConnect (pulseCounter (setup_sketch 0 ble_globals)))"
  "deviceConnected (onConnect (pulseCounter (setup_sketch 0 ble_globals)))"
  "pCharacteristic (onConnect (pulseCounter (setup_sketch 0 ble_globals))) \<noteq> None"
  "CALC_INTERVAL \<le> 1000 - lastTime (onConnect (pulseCounter (setup_sketch 0 ble_globals)))"
  "pulseCount (onConnect (pulseCounter (setup_sketch 0 ble_globals))) = 1"
  "lastTime (onConnect (pulseCounter (setup_sketch 0 ble_globals))) = 0"
  "calibrationFactor (onConnect (pulseCounter (setup_sketch 0 ble_globals))) = Finite False 5"
  "totalVolume (onConnect (pulseCounter (setup_sketch 0 ble_globals))) = Finite False 0"
  by (intro reachable.connect reachable.interrupt reachable.start)
    (simp_all add: onConnect_def pulseCounter_def setup_sketch_def setupBLE_def ble_globals_def
       CALC_INTERVAL_def zero_def)

lemma connected_run:
  "flowRate (fst (loop 1000 (onConnect (pulseCounter (setup_sketch 0 ble_globals)))))
     = Finite False (13421773 / 67108864)"
  "totalVolume (fst (loop 1000 (onConnect (pulseCounter (setup_sketch 0 ble_globals)))))
     = Finite False (2415919 / 1073741824)"
  "\<exists>n. snd (loop 1000 (onConnect (pulseCounter (setup_sketch 0 ble_globals)))) = Some
     (\<lparr>pulses = 1, elapsedSeconds = Finite False 1, frequency = Finite False 1,
       volumeThisInterval_L = Finite False (2415919 / 1073741824),
       volumeThisInterval_mL = Finite False (9 / 4)\<rparr>, n)"
proof -
  let ?b = "onConnect (pulseCounter (setup_sketch 0 ble_globals))"
  have es: "fdiv binary32 (of_ulong binary32 (1000 - lastTime ?b)) (Finite False 1000) = Finite False 1"
    by (simp only: connected_state(6) diff_zero of_ulong_1000 scenario_values)
  have pos: "fp_gt (Finite False 1) zero" by (rule one_second)
  note r = loop_runs [OF connected_state(4), unfolded es connected_state(5)]
  have f: "frequency (fst (calculate 1 (Finite False 1) (?b\<lparr>pulseCount := 0\<rparr>))) = Finite False 1"
    by (simp only: calculate_sel pos if_True of_ulong_1 payload_values)
  have v: "volumeThisInterval_L (fst (calculate 1 (Finite False 1) (?b\<lparr>pulseCount := 0\<rparr>)))
      = Finite False (2415919 / 1073741824)"
    by (simp only: calculate_sel of_ulong_1 one_pulse_volume)
  have m: "volumeThisInterval_mL (fst (calculate 1 (Finite False 1) (?b\<lparr>pulseCount := 0\<rparr>)))
      = Finite False (9 / 4)"
    by (simp only: calculate_sel(5) v payload_values)
  show "flowRate (fst (loop 1000 ?b)) = Finite False (13421773 / 67108864)"
    using connected_state(7) by (simp add: r(2) calculate_sel(6) f payload_values del: fdiv.simps)
  show "totalVolume (fst (loop 1000 ?b)) = Finite False (2415919 / 1073741824)"
    using connected_state(8) by (simp add: r(3) calculate_sel(7) v payload_values del: fadd.simps)
  have "fst (calculate 1 (Finite False 1) (?b\<lparr>pulseCount := 0\<rparr>))
      = \<lparr>pulses = 1, elapsedSeconds = Finite False 1, frequency = Finite False 1,
       volumeThisInterval_L = Finite False (2415919 / 1073741824),
       volumeThisInterval_mL = Finite False (9 / 4)\<rparr>"
    using f v m by (simp add: calculate_sel(1,2))
  then show "\<exists>n. snd (loop 1000 ?b) = Some
     (\<lparr>pulses = 1, elapsedSeconds = Finite False 1, frequency = Finite False 1,
       volumeThisInterval_L = Finite False (2415919 / 1073741824),
       volumeThisInterval_mL = Finite False (9 / 4)\<rparr>, n)"
    using r(1) by simp
qed

section \<open>Accumulation into a total that is not zero\<close>

text \<open>
  One pulse is worth 2415919 / 1073741824 litres in every version. Added to a total of
  32768 it gives 8388609 / 256; added to a total of 65536, where the last place of
  binary32 is 1 / 128, it is rounded away.
\<close>

lemma absorbed_values:
  "fadd binary32 (Finite False 32768) (Finite False (2415919 / 1073741824)) = Finite False (8388609 / 256)"
  "fadd binary32 (Finite False 65536) (Finite False (2415919 / 1073741824)) = Finite False 65536"
  "rnd_mag binary32 32768 = 32768"
  "rnd_mag binary32 65536 = 65536"
  by code_simp+

lemma legacy_one_pulse:
  "fcast binary32 (fdiv binary64 (fmul binary32 (Finite False 1) ML_PER_PULSE) (Finite False 1000))
     = Finite False (2415919 / 1073741824)"
  by code_simp

lemma loaded_state:
  "totalVolume (ble_globals\<lparr>pulseCount := 1, totalVolume := Finite False 32768\<rparr>) = Finite False 32768"
  "totalVolume (globals\<lparr>pulseCount := 1, totalVolume := Finite False 32768\<rparr>) = Finite False 32768"
  "pulseCount (ble_globals\<lparr>pulseCount := 1, totalVolume := Finite False 32768\<rparr>) = 1"
  "pulseCount (globals\<lparr>pulseCount := 1, totalVolume := Finite False 32768\<rparr>) = 1"
  "1000 - lastTime (ble_globals\<lparr>pulseCount := 1, totalVolume := Finite False 32768\<rparr>) = 1000"
  "1000 - lastTime (globals\<lparr>pulseCount := 1, totalVolume := Finite False 32768\<rparr>) = 1000"
  by (simp_all add: ble_globals_def globals_def)

lemma loaded_total: "is_fp binary32 (Finite False 32768)" "\<not> is_nan (Finite False 32768)"
  using absorbed_values(3) by (simp_all add: round_to_def Let_def binary32_def)

lemma loaded_loop:
  "totalVolume (fst (loop 1000 (ble_globals\<lparr>pulseCount := 1, totalVolume := Finite False 32768\<rparr>)))
     = Finite False (8388609 / 256)"
proof -
  let ?b = "ble_globals\<lparr>pulseCount := 1, totalVolume := Finite False 32768\<rparr>"
  have g: "CALC_INTERVAL \<le> 1000 - lastTime ?b"
    by (simp only: loaded_state(5) interval_guard_1000)
  have "totalVolume (fst (loop 1000 ?b)) = fadd binary32 (totalVolume (?b\<lparr>pulseCount := 0\<rparr>))
      (fdiv binary32 (fmul binary32 (of_ulong binary32 (pulseCount ?b)) ML_PER_PULSE) (Finite False 1000))"
    by (simp only: loop_runs(3) [OF g] calculate_sel(7) calculate_sel(4))
  also have "\<dots> = fadd binary32 (Finite False 32768) (Finite False (2415919 / 1073741824))"
    by (simp add: ble_globals_def of_ulong_1 one_pulse_volume del: fadd.simps fdiv.simps fmul.simps)
  finally show ?thesis by (simp only: absorbed_values)
qed

lemma one_pulse_second: "volumeThisSecond 1 = Finite False (2415919 / 1073741824)"
  by (simp only: volumeThisSecond_def of_ulong_1 legacy_one_pulse)

lemma loaded_loop_v1:
  "totalVolume (fst (loop_v1 1000 (globals\<lparr>pulseCount := 1, totalVolume := Finite False 32768\<rparr>)))
     = Finite False (8388609 / 256)"
proof -
  have "totalVolume (fst (loop_v1 1000 (globals\<lparr>pulseCount := 1, totalVolume := Finite False 32768\<rparr>)))
      = fadd binary32 (Finite False 32768) (volumeThisSecond 1)"
    by (simp add: loop_v1_def Let_def globals_def CALC_INTERVAL_v1_def
          del: fadd.simps fdiv.simps fmul.simps fcast.simps)
  then show ?thesis by (simp only: one_pulse_second absorbed_values)
qed

lemma loaded_loop_v2:
  "totalVolume (fst (loop_v2 1000 (globals\<lparr>pulseCount := 1, totalVolume := Finite False 32768\<rparr>)))
     = Finite False (8388609 / 256)"
proof -
  have "totalVolume (fst (loop_v2 1000 (globals\<lparr>pulseCount := 1, totalVolume := Finite False 32768\<rparr>)))
      = fadd binary32 (Finite False 32768) (volumeThisSecond 1)"
    by (simp add: loop_v2_def Let_def globals_def CALC_INTERVAL_v1_def
          del: fadd.simps fdiv.simps fmul.simps fcast.simps)
  then show ?thesis by (simp only: one_pulse_second absorbed_values)
qed


section \<open>Calibration\<close>

text \<open>
  C1 (as the code has it). \<^verbatim>\<open>setCalibrationFactor\<close> is a plain assignment: for every
  factor whatsoever, zero and negative ones included, the call returns normally, the
  stored calibration factor becomes the argument, and no other variable changes.
\<close>

theorem setCalibrationFactor_stores:
  "calibrationFactor (setCalibrationFactor factor st) = factor
   \<and> pulseCount (setCalibrationFactor factor st) = pulseCount st
   \<and> lastTime (setCalibrationFactor factor st) = lastTime st
   \<and> flowRate (setCalibrationFactor factor st) = flowRate st
   \<and> totalVolume (setCalibrationFactor factor st) = totalVolume st"
  by (simp add: setCalibrationFactor_def)

theorem setCalibrationFactor_stores_witness:
  "calibrationFactor (setCalibrationFactor (Finite False 7) globals) = Finite False 7
   \<and> totalVolume (setCalibrationFactor (Finite False 7) globals) = totalVolume globals"
  using setCalibrationFactor_stores [of "Finite False 7" globals] by simp

text \<open>
  C1 (as the specification has it) fails: the factor \<open>-1\<close> is not greater than zero, yet
  after the call it is the stored factor, and the previous factor \<open>5\<close> is gone.
\<close>

theorem setCalibrationFactor_negative_accepted:
  "fp_le (Finite True 1) zero
   \<and> calibrationFactor (setCalibrationFactor (Finite True 1) globals) = Finite True 1
   \<and> calibrationFactor (setCalibrationFactor (Finite True 1) globals) \<noteq> calibrationFactor globals"
  by (simp add: setCalibrationFactor_def globals_def zero_def sval_def)

section \<open>Frequency\<close>

text \<open>
  C2. In \<^verbatim>\<open>flow_control.ino\<close>, for every pulse count and every elapsed time: when the
  elapsed time is greater than zero the frequency is the binary32 quotient of the pulse
  count by it; when it equals zero (either zero) the frequency is positive zero; and the
  division is only ever handed a divisor that is not zero. Moreover every pass of
  \<^verbatim>\<open>loop\<close> through the interval block has an elapsed time greater than zero. The second
  version in \<^verbatim>\<open>part_000\<close> divides without a guard, but its block runs only after at least
  1000 ms, so its divisor is greater than zero too.
\<close>

theorem frequency_guarded:
  fixes st :: "'a sketch_scheme" and b :: ble_sketch and s2 :: sketch
  shows "(fp_gt es zero \<longrightarrow>
           frequency (fst (calculate p es st)) = fdiv binary32 (of_ulong binary32 p) es)
    \<and> (fp_eq es zero \<longrightarrow> frequency (fst (calculate p es st)) = zero)
    \<and> (\<forall>d. elapsed_divisor es = Some d \<longrightarrow> d = es \<and> \<not> is_zero d)
    \<and> (CALC_INTERVAL \<le> t - lastTime b \<longrightarrow>
         (\<exists>smp n. snd (loop t b) = Some (smp, n) \<and> fp_gt (elapsedSeconds smp) zero
            \<and> frequency smp = fdiv binary32 (of_ulong binary32 (pulseCount b)) (elapsedSeconds smp)))
    \<and> (CALC_INTERVAL_v1 \<le> t - lastTime s2 \<longrightarrow>
         (\<exists>smp. snd (loop_v2 t s2) = Some smp \<and> fp_gt (elapsedSeconds smp) zero
            \<and> \<not> is_zero (elapsedSeconds smp)
            \<and> frequency smp = fdiv binary32 (of_ulong binary32 (pulseCount s2)) (elapsedSeconds smp)))"
proof -
  have 1: "fp_gt es zero \<longrightarrow>
      frequency (fst (calculate p es st)) = fdiv binary32 (of_ulong binary32 p) es"
    by (simp add: calculate_sel)
  have 2: "fp_eq es zero \<longrightarrow> frequency (fst (calculate p es st)) = zero"
    by (simp add: calculate_sel fp_eq_zero_not_gt)
  have 3: "\<forall>d. elapsed_divisor es = Some d \<longrightarrow> d = es \<and> \<not> is_zero d"
    by (auto simp: elapsed_divisor_def fp_gt_zero_nonzero split: if_splits)
  have 4: "\<exists>smp n. snd (loop t b) = Some (smp, n) \<and> fp_gt (elapsedSeconds smp) zero
      \<and> frequency smp = fdiv binary32 (of_ulong binary32 (pulseCount b)) (elapsedSeconds smp)"
    if g: "CALC_INTERVAL \<le> t - lastTime b"
  proof -
    obtain e where e: "fdiv binary32 (of_ulong binary32 (t - lastTime b)) (Finite False 1000)
        = Finite False e" "1 / 16 \<le> e"
      using elapsed_ble [OF g] by auto
    have pos: "fp_gt (Finite False e) zero"
      using e(2) by (simp add: fp_gt_def zero_def sval_def)
    from loop_runs(1) [OF g] obtain n where
      "snd (loop t b) = Some (fst (calculate (pulseCount b) (Finite False e) (b\<lparr>pulseCount := 0\<rparr>)), n)"
      unfolding e(1) by auto
    then show ?thesis using pos by (auto simp: calculate_sel)
  qed
  have 5: "\<exists>smp. snd (loop_v2 t s2) = Some smp \<and> fp_gt (elapsedSeconds smp) zero
      \<and> \<not> is_zero (elapsedSeconds smp)
      \<and> frequency smp = fdiv binary32 (of_ulong binary32 (pulseCount s2)) (elapsedSeconds smp)"
    if g: "CALC_INTERVAL_v1 \<le> t - lastTime s2"
  proof -
    obtain e where e: "fcast binary32 (fdiv binary64 (of_ulong binary64 (t - lastTime s2))
        (Finite False 1000)) = Finite False e" "1 \<le> e"
      using elapsed_v2 [OF g] by auto
    have pos: "fp_gt (Finite False e) zero" "e \<noteq> 0"
      using e(2) by (simp_all add: fp_gt_def zero_def sval_def)
    show ?thesis
      using g pos by (simp add: loop_v2_def Let_def e(1))
  qed
  from 1 2 3 4 5 show ?thesis by blast
qed

theorem frequency_guarded_witness:
  "fp_gt (Finite False 1) zero
   \<and> frequency (fst (calculate 50 (Finite False 1) globals)) = Finite False 50
   \<and> fp_eq zero zero
   \<and> frequency (fst (calculate 50 zero globals)) = zero
   \<and> elapsed_divisor (Finite False 1) = Some (Finite False 1)
   \<and> \<not> is_zero (Finite False 1)
   \<and> CALC_INTERVAL_v1 \<le> 1000 - lastTime globals
   \<and> (\<exists>smp. snd (loop_v2 1000 globals) = Some smp \<and> fp_gt (elapsedSeconds smp) zero)"
proof -
  have pos: "fp_gt (Finite False 1) zero" by (simp add: fp_gt_def zero_def sval_def)
  have z: "fp_eq zero zero" by (simp add: zero_def)
  have d: "elapsed_divisor (Finite False 1) = Some (Finite False 1)"
    using pos by (simp add: elapsed_divisor_def)
  have g: "CALC_INTERVAL_v1 \<le> 1000 - lastTime globals"
    by (simp add: CALC_INTERVAL_v1_def globals_def)
  have q: "fdiv binary32 (of_ulong binary32 50) (Finite False 1) = Finite False 50"
    by (simp only: of_ulong_50 scenario_values)
  note a = frequency_guarded [where es = "Finite False 1" and p = 50 and st = globals
    and t = 1000 and ?s2.0 = globals]
  note b = frequency_guarded [where es = zero and p = 50 and st = globals]
  have 1: "frequency (fst (calculate 50 (Finite False 1) globals)) = Finite False 50"
    using a pos q by simp
  have 2: "frequency (fst (calculate 50 zero globals)) = zero"
    using b z by blast
  have 3: "\<not> is_zero (Finite False 1)" using a d by blast
  have 4: "\<exists>smp. snd (loop_v2 1000 globals) = Some smp \<and> fp_gt (elapsedSeconds smp) zero"
    using a g by blast
  from pos 1 z 2 d 3 g 4 show ?thesis by blast
qed

section \<open>The first end-to-end scenario\<close>

text \<open>
  C3 (as the code has it). With a calibration factor of 5, 2.25 mL per pulse, 1000 ms
  elapsed and 50 pulses drained, one pass of \<^verbatim>\<open>loop\<close> yields an elapsed time of exactly
  1 s, a frequency of exactly 50 Hz, a flow rate of exactly 10 and an interval volume of
  exactly 112.5 mL. The volume in litres is the binary32 number nearest to 0.1125, which
  is 7549747 / 67108864; the new total is the binary32 sum of the old total and that
  number, and it is exactly that number when the old total is zero.
\<close>

theorem scenario_A:
  assumes "t - lastTime b = 1000" and "pulseCount b = 50" and "calibrationFactor b = Finite False 5"
  shows "\<exists>smp n. snd (loop t b) = Some (smp, n)
     \<and> elapsedSeconds smp = Finite False 1
     \<and> frequency smp = Finite False 50
     \<and> flowRate (fst (loop t b)) = Finite False 10
     \<and> volumeThisInterval_mL smp = Finite False (225 / 2)
     \<and> volumeThisInterval_L smp = Finite False (7549747 / 67108864)
     \<and> round_to binary32 False (9 / 80) = Finite False (7549747 / 67108864)
     \<and> totalVolume (fst (loop t b)) = fadd binary32 (totalVolume b) (Finite False (7549747 / 67108864))
     \<and> (totalVolume b = zero \<longrightarrow> totalVolume (fst (loop t b)) = Finite False (7549747 / 67108864))"
  using assms by (rule loop_scenario_A)

theorem scenario_A_witness:
  "1000 - lastTime (ble_globals\<lparr>pulseCount := 50\<rparr>) = 1000
   \<and> pulseCount (ble_globals\<lparr>pulseCount := 50\<rparr>) = 50
   \<and> calibrationFactor (ble_globals\<lparr>pulseCount := 50\<rparr>) = Finite False 5
   \<and> (\<exists>smp n. snd (loop 1000 (ble_globals\<lparr>pulseCount := 50\<rparr>)) = Some (smp, n)
        \<and> frequency smp = Finite False 50
        \<and> volumeThisInterval_mL smp = Finite False (225 / 2))
   \<and> flowRate (fst (loop 1000 (ble_globals\<lparr>pulseCount := 50\<rparr>))) = Finite False 10
   \<and> totalVolume (fst (loop 1000 (ble_globals\<lparr>pulseCount := 50\<rparr>)))
       = Finite False (7549747 / 67108864)"
  using scenario_A [OF scenario_state(1,2,3)] scenario_state by auto

text \<open>
  C3 (as the specification has it) fails in its last part. Starting from a total of
  zero the total becomes 7549747 / 67108864, so it has grown by less than 0.1125 = 9 / 80
  (a number binary32 does not have); and starting from a total of 16777216 the same step
  leaves the total where it was.
\<close>

theorem scenario_A_total_not_exact:
  "totalVolume (ble_globals\<lparr>pulseCount := 50\<rparr>) = Finite False 0
   \<and> totalVolume (fst (loop 1000 (ble_globals\<lparr>pulseCount := 50\<rparr>)))
       = Finite False (7549747 / 67108864)
   \<and> (7549747 / 67108864 :: rat) - 0 \<noteq> 9 / 80
   \<and> totalVolume (ble_globals\<lparr>pulseCount := 50, totalVolume := Finite False 16777216\<rparr>)
       = Finite False 16777216
   \<and> totalVolume (fst (loop 1000 (ble_globals\<lparr>pulseCount := 50, totalVolume := Finite False 16777216\<rparr>)))
       = Finite False 16777216"
proof -
  have a: "totalVolume (fst (loop 1000 (ble_globals\<lparr>pulseCount := 50\<rparr>)))
      = Finite False (7549747 / 67108864)"
    using loop_scenario_A [OF scenario_state(1,2,3)] scenario_state(4) by auto
  have "totalVolume (fst (loop 1000 (ble_globals\<lparr>pulseCount := 50, totalVolume := Finite False 16777216\<rparr>)))
      = fadd binary32 (totalVolume (ble_globals\<lparr>pulseCount := 50, totalVolume := Finite False 16777216\<rparr>))
          (Finite False (7549747 / 67108864))"
    using loop_scenario_A [of 1000 "ble_globals\<lparr>pulseCount := 50, totalVolume := Finite False 16777216\<rparr>"]
    by (auto simp: ble_globals_def simp del: fadd.simps)
  then have "totalVolume (fst (loop 1000 (ble_globals\<lparr>pulseCount := 50, totalVolume := Finite False 16777216\<rparr>)))
      = fadd binary32 (Finite False 16777216) (Finite False (7549747 / 67108864))"
    by (simp del: fadd.simps)
  then have b: "totalVolume (fst (loop 1000 (ble_globals\<lparr>pulseCount := 50, totalVolume := Finite False 16777216\<rparr>)))
      = Finite False 16777216"
    by (simp only: scenario_values)
  show ?thesis using a b by (simp add: ble_globals_def zero_def)
qed

section \<open>Flow rate\<close>

text \<open>
  C4. The flow rate stored by the interval computation is the binary32 quotient of the
  frequency of that interval by the calibration factor, for every calibration factor;
  for a positive finite factor and a finite frequency that is the exact quotient rounded
  once. The same holds of every pass of \<^verbatim>\<open>loop\<close> through the interval block.
\<close>

theorem flowRate_quotient:
  fixes st :: "'a sketch_scheme" and b :: ble_sketch
  shows "flowRate (snd (calculate p es st))
      = fdiv binary32 (frequency (fst (calculate p es st))) (calibrationFactor st)
    \<and> (\<forall>s m c. frequency (fst (calculate p es st)) = Finite s m \<longrightarrow>
          calibrationFactor st = Finite False c \<longrightarrow> 0 < c \<longrightarrow>
          flowRate (snd (calculate p es st)) = round_to binary32 s (m / c))
    \<and> (CALC_INTERVAL \<le> t - lastTime b \<longrightarrow>
         (\<exists>smp n. snd (loop t b) = Some (smp, n)
            \<and> flowRate (fst (loop t b)) = fdiv binary32 (frequency smp) (calibrationFactor b)))"
proof -
  have 1: "flowRate (snd (calculate p es st))
      = fdiv binary32 (frequency (fst (calculate p es st))) (calibrationFactor st)"
    by (rule calculate_sel)
  have 2: "\<forall>s m c. frequency (fst (calculate p es st)) = Finite s m \<longrightarrow>
      calibrationFactor st = Finite False c \<longrightarrow> 0 < c \<longrightarrow>
      flowRate (snd (calculate p es st)) = round_to binary32 s (m / c)"
    unfolding 1 by auto
  have 3: "\<exists>smp n. snd (loop t b) = Some (smp, n)
      \<and> flowRate (fst (loop t b)) = fdiv binary32 (frequency smp) (calibrationFactor b)"
    if g: "CALC_INTERVAL \<le> t - lastTime b"
    using loop_runs(1,2) [OF g] by (auto simp: calculate_sel(6) simp del: fdiv.simps)
  from 1 2 3 show ?thesis by blast
qed

theorem flowRate_quotient_witness:
  "flowRate (snd (calculate 50 (Finite False 1) globals)) = Finite False 10
   \<and> frequency (fst (calculate 50 (Finite False 1) globals)) = Finite False 50
   \<and> calibrationFactor globals = Finite False 5
   \<and> round_to binary32 False (50 / 5) = Finite False 10"
proof -
  have pos: "fp_gt (Finite False 1) zero" by (simp add: fp_gt_def zero_def sval_def)
  have f: "frequency (fst (calculate 50 (Finite False 1) globals)) = Finite False 50"
    by (simp only: calculate_sel pos if_True of_ulong_50 scenario_values)
  have c: "calibrationFactor globals = Finite False 5" by (simp add: globals_def)
  have r: "round_to binary32 False (50 / 5) = Finite False 10" by code_simp
  from flowRate_quotient [of 50 "Finite False 1" globals]
  have "flowRate (snd (calculate 50 (Finite False 1) globals)) = round_to binary32 False (50 / 5)"
    using f c by simp
  then show ?thesis using f c r by simp
qed

section \<open>An interval without pulses\<close>

text \<open>
  C5. When no pulse was drained and the elapsed time is greater than zero, the interval
  computation of \<^verbatim>\<open>flow_control.ino\<close> started in a state that satisfies the invariant
  yields a frequency, a flow rate and an interval volume (in litres and in millilitres)
  that are all positive zero, and it leaves the total as it was. In particular, every
  pass of \<^verbatim>\<open>loop\<close> through the interval block that starts in a reachable state with a
  pulse count of zero does so (its elapsed time is always greater than zero).
\<close>

theorem zero_pulses:
  fixes st :: "'a sketch_scheme" and b :: ble_sketch
  shows "(flow_inv st \<longrightarrow> is_fp binary32 es \<longrightarrow> fp_gt es zero \<longrightarrow>
            frequency (fst (calculate 0 es st)) = zero
          \<and> flowRate (snd (calculate 0 es st)) = zero
          \<and> volumeThisInterval_L (fst (calculate 0 es st)) = zero
          \<and> volumeThisInterval_mL (fst (calculate 0 es st)) = zero
          \<and> totalVolume (snd (calculate 0 es st)) = totalVolume st)
    \<and> (reachable b \<longrightarrow> pulseCount b = 0 \<longrightarrow> CALC_INTERVAL \<le> t - lastTime b \<longrightarrow>
          (\<exists>smp n. snd (loop t b) = Some (smp, n)
             \<and> fp_gt (elapsedSeconds smp) zero
             \<and> frequency smp = zero
             \<and> flowRate (fst (loop t b)) = zero
             \<and> volumeThisInterval_L smp = zero
             \<and> volumeThisInterval_mL smp = zero
             \<and> totalVolume (fst (loop t b)) = totalVolume b))"
proof -
  have a: "flow_inv st \<longrightarrow> is_fp binary32 es \<longrightarrow> fp_gt es zero \<longrightarrow>
            frequency (fst (calculate 0 es st)) = zero
          \<and> flowRate (snd (calculate 0 es st)) = zero
          \<and> volumeThisInterval_L (fst (calculate 0 es st)) = zero
          \<and> volumeThisInterval_mL (fst (calculate 0 es st)) = zero
          \<and> totalVolume (snd (calculate 0 es st)) = totalVolume st"
    using calculate_zero_pulses [of st es] by blast
  have l: "\<exists>smp n. snd (loop t b) = Some (smp, n)
             \<and> fp_gt (elapsedSeconds smp) zero
             \<and> frequency smp = zero
             \<and> flowRate (fst (loop t b)) = zero
             \<and> volumeThisInterval_L smp = zero
             \<and> volumeThisInterval_mL smp = zero
             \<and> totalVolume (fst (loop t b)) = totalVolume b"
    if rb: "reachable b" and p: "pulseCount b = 0" and g: "CALC_INTERVAL \<le> t - lastTime b"
  proof -
  obtain e where e: "fdiv binary32 (of_ulong binary32 (t - lastTime b)) (Finite False 1000)
      = Finite False e" "1 / 16 \<le> e" "rnd_mag binary32 e = e" "e \<le> 4294967296"
    using elapsed_ble [OF g] by auto
  have pos: "fp_gt (Finite False e) zero"
    using e(2) by (simp add: fp_gt_def zero_def sval_def)
  have fe: "is_fp binary32 (Finite False e)"
    using e by (simp add: round_to_def Let_def binary32_def)
  have inv: "flow_inv (b\<lparr>pulseCount := 0\<rparr>)"
    using reachable_flow_inv [OF rb] by (simp add: flow_inv_def)
  note c = calculate_zero_pulses [OF inv fe pos]
  note r = loop_runs [OF g, unfolded e(1) p]
  from r(1) obtain n where
    "snd (loop t b) = Some (fst (calculate 0 (Finite False e) (b\<lparr>pulseCount := 0\<rparr>)), n)"
    by auto
  then show ?thesis
    using c pos by (simp add: r(2,3) calculate_sel(2))
  qed
  from a l show ?thesis by blast
qed

theorem zero_pulses_witness:
  "reachable (setup_sketch 0 ble_globals)
   \<and> pulseCount (setup_sketch 0 ble_globals) = 0
   \<and> CALC_INTERVAL \<le> 1000 - lastTime (setup_sketch 0 ble_globals)
   \<and> (\<exists>smp n. snd (loop 1000 (setup_sketch 0 ble_globals)) = Some (smp, n)
        \<and> frequency smp = zero \<and> volumeThisInterval_mL smp = zero)
   \<and> flowRate (fst (loop 1000 (setup_sketch 0 ble_globals))) = zero
   \<and> totalVolume (fst (loop 1000 (setup_sketch 0 ble_globals))) = zero
   \<and> flow_inv globals \<and> is_fp binary32 (Finite False 1) \<and> fp_gt (Finite False 1) zero
   \<and> frequency (fst (calculate 0 (Finite False 1) globals)) = zero
   \<and> totalVolume (snd (calculate 0 (Finite False 1) globals)) = totalVolume globals"
proof -
  note z = zero_pulses [where st = globals and es = "Finite False 1"
    and b = "setup_sketch 0 ble_globals" and t = 1000]
  have 1: "\<exists>smp n. snd (loop 1000 (setup_sketch 0 ble_globals)) = Some (smp, n)
        \<and> frequency smp = zero \<and> volumeThisInterval_mL smp = zero"
    using z start_state by blast
  have 2: "flowRate (fst (loop 1000 (setup_sketch 0 ble_globals))) = zero"
    using z start_state by blast
  have 3: "totalVolume (fst (loop 1000 (setup_sketch 0 ble_globals))) = zero"
    using z start_state by auto
  have 4: "frequency (fst (calculate 0 (Finite False 1) globals)) = zero"
    using z flow_inv_globals one_second by blast
  have 5: "totalVolume (snd (calculate 0 (Finite False 1) globals)) = totalVolume globals"
    using z flow_inv_globals one_second by blast
  from start_state(1,2,3) 1 2 3 flow_inv_globals one_second 4 5 show ?thesis by blast
qed

section \<open>Reset of the total\<close>

text \<open>
  C6. \<^verbatim>\<open>resetTotalVolume\<close> has a single path: from every state, whatever the total was
  (a NaN or an infinity included), the total afterwards is positive zero and no other
  variable changes.
\<close>

theorem resetTotalVolume_zero:
  "totalVolume (resetTotalVolume st) = Finite False 0
   \<and> getTotalVolume (resetTotalVolume st) = Finite False 0
   \<and> pulseCount (resetTotalVolume st) = pulseCount st
   \<and> lastTime (resetTotalVolume st) = lastTime st
   \<and> flowRate (resetTotalVolume st) = flowRate st
   \<and> calibrationFactor (resetTotalVolume st) = calibrationFactor st"
  by (simp add: resetTotalVolume_def getTotalVolume_def zero_def)

theorem resetTotalVolume_zero_witness:
  "totalVolume (resetTotalVolume (globals\<lparr>totalVolume := Infinity False\<rparr>)) = Finite False 0
   \<and> calibrationFactor (resetTotalVolume (globals\<lparr>totalVolume := Infinity False\<rparr>)) = Finite False 5"
  using resetTotalVolume_zero [of "globals\<lparr>totalVolume := Infinity False\<rparr>"]
  by (simp add: globals_def)

section \<open>The running total\<close>

text \<open>
  C7. Whenever the total is a binary32 number (anything but a NaN), every operation of
  the sketches other than \<^verbatim>\<open>resetTotalVolume\<close> leaves a total that is greater than or
  equal to the previous one in the order of C: the interval computation of
  \<^verbatim>\<open>flow_control.ino\<close> for every pulse count and every elapsed time, a whole call of
  \<^verbatim>\<open>loop\<close> in each of the three versions, the interrupt handler, the connection
  callbacks and \<^verbatim>\<open>setCalibrationFactor\<close>. (The getters return a value and change nothing.)
\<close>

theorem totalVolume_never_decreases:
  fixes b :: ble_sketch and st :: sketch
  assumes "is_fp binary32 (totalVolume b)" and "\<not> is_nan (totalVolume b)"
    and "is_fp binary32 (totalVolume st)" and "\<not> is_nan (totalVolume st)"
  shows "fp_le (totalVolume b) (totalVolume (snd (calculate p es b)))
    \<and> fp_le (totalVolume b) (totalVolume (fst (loop t b)))
    \<and> fp_le (totalVolume b) (totalVolume (pulseCounter b))
    \<and> fp_le (totalVolume b) (totalVolume (onConnect b))
    \<and> fp_le (totalVolume b) (totalVolume (onDisconnect b))
    \<and> fp_le (totalVolume st) (totalVolume (fst (loop_v1 t st)))
    \<and> fp_le (totalVolume st) (totalVolume (fst (loop_v2 t st)))
    \<and> fp_le (totalVolume st) (totalVolume (pulseCounter st))
    \<and> fp_le (totalVolume st) (totalVolume (setCalibrationFactor c st))"
proof -
  have calc: "fp_le (totalVolume x) (totalVolume (snd (calculate q e x)))"
    if "is_fp binary32 (totalVolume x)" and "\<not> is_nan (totalVolume x)"
    for x :: ble_sketch and q e
  proof -
    obtain v where v: "volumeThisInterval_L (fst (calculate q e x)) = Finite False v" "0 \<le> v"
      using volume_Finite [of q e x] by auto
    have "totalVolume (snd (calculate q e x))
        = fadd binary32 (totalVolume x) (volumeThisInterval_L (fst (calculate q e x)))"
      by (simp add: calculate_def Let_def)
    then show ?thesis using fadd_volume_ge [OF that v] by simp
  qed
  have l: "fp_le (totalVolume b) (totalVolume (fst (loop t b)))"
  proof (cases "CALC_INTERVAL \<le> t - lastTime b")
    case True
    have "totalVolume (fst (loop t b)) = totalVolume (snd (calculate (pulseCount b)
        (fdiv binary32 (of_ulong binary32 (t - lastTime b)) (Finite False 1000))
        (b\<lparr>pulseCount := 0\<rparr>)))"
      using True by (simp add: loop_def Let_def split: prod.splits option.splits)
    moreover have "totalVolume (b\<lparr>pulseCount := 0\<rparr>) = totalVolume b" by simp
    ultimately show ?thesis
      using calc [of "b\<lparr>pulseCount := 0\<rparr>"] assms(1,2) by simp
  next
    case False
    then show ?thesis using assms(2) by (simp add: loop_def fp_le_refl)
  qed
  obtain v where v: "volumeThisSecond (pulseCount st) = Finite False v" "0 \<le> v"
    using volumeThisSecond_Finite [of "pulseCount st"] by auto
  have leg: "fp_le (totalVolume st) (fadd binary32 (totalVolume st) (volumeThisSecond (pulseCount st)))"
    using fadd_volume_ge [OF assms(3,4) v] .
  have l1: "fp_le (totalVolume st) (totalVolume (fst (loop_v1 t st)))"
    using leg assms(4) by (simp add: loop_v1_def Let_def fp_le_refl)
  have l2: "fp_le (totalVolume st) (totalVolume (fst (loop_v2 t st)))"
    using leg assms(4) by (simp add: loop_v2_def Let_def fp_le_refl)
  show ?thesis
    using calc [OF assms(1,2)] l l1 l2 assms(2,4)
    by (simp add: pulseCounter_def onConnect_def onDisconnect_def setCalibrationFactor_def fp_le_refl)
qed

theorem totalVolume_never_decreases_witness:
  "is_fp binary32 (totalVolume (ble_globals\<lparr>pulseCount := 1, totalVolume := Finite False 32768\<rparr>))
   \<and> \<not> is_nan (totalVolume (ble_globals\<lparr>pulseCount := 1, totalVolume := Finite False 32768\<rparr>))
   \<and> is_fp binary32 (totalVolume (globals\<lparr>pulseCount := 1, totalVolume := Finite False 32768\<rparr>))
   \<and> \<not> is_nan (totalVolume (globals\<lparr>pulseCount := 1, totalVolume := Finite False 32768\<rparr>))
   \<and> totalVolume (ble_globals\<lparr>pulseCount := 1, totalVolume := Finite False 32768\<rparr>)
       = Finite False 32768
   \<and> totalVolume (fst (loop 1000 (ble_globals\<lparr>pulseCount := 1, totalVolume := Finite False 32768\<rparr>)))
       = Finite False (8388609 / 256)
   \<and> fp_le (Finite False 32768) (Finite False (8388609 / 256))
   \<and> fp_lt (Finite False 32768) (Finite False (8388609 / 256))
   \<and> totalVolume (fst (loop_v1 1000 (globals\<lparr>pulseCount := 1, totalVolume := Finite False 32768\<rparr>)))
       = Finite False (8388609 / 256)
   \<and> totalVolume (fst (loop_v2 1000 (globals\<lparr>pulseCount := 1, totalVolume := Finite False 32768\<rparr>)))
       = Finite False (8388609 / 256)
   \<and> fp_le (totalVolume (globals\<lparr>pulseCount := 1, totalVolume := Finite False 32768\<rparr>))
        (totalVolume (setCalibrationFactor (Finite True 1)
           (globals\<lparr>pulseCount := 1, totalVolume := Finite False 32768\<rparr>)))"
proof -
  let ?b = "ble_globals\<lparr>pulseCount := 1, totalVolume := Finite False 32768\<rparr>"
  let ?s = "globals\<lparr>pulseCount := 1, totalVolume := Finite False 32768\<rparr>"
  have h1: "is_fp binary32 (totalVolume ?b)" and h2: "\<not> is_nan (totalVolume ?b)"
    and h3: "is_fp binary32 (totalVolume ?s)" and h4: "\<not> is_nan (totalVolume ?s)"
    unfolding loaded_state(1,2) by (rule loaded_total)+
  note m = totalVolume_never_decreases [OF h1 h2 h3 h4, where t = 1000 and c = "Finite True 1"]
  have a: "fp_le (Finite False 32768) (Finite False (8388609 / 256))"
    using m unfolding loaded_loop loaded_state(1) by blast
  have s: "fp_lt (Finite False 32768) (Finite False (8388609 / 256))"
    by (simp add: sval_def)
  have c: "fp_le (totalVolume ?s) (totalVolume (setCalibrationFactor (Finite True 1) ?s))"
    using m by blast
  from h1 h2 h3 h4 loaded_state(1) loaded_loop a s loaded_loop_v1 loaded_loop_v2 c
  show ?thesis by blast
qed

section \<open>The notification\<close>

text \<open>
  C8. Whenever \<^verbatim>\<open>loop\<close> runs the interval block in a reachable state with a peer
  connected, it notifies a payload, stores it as the value of the characteristic, and the
  payload is the five fields pulse count, frequency, flow rate, interval volume in
  millilitres and total, in this order and separated by commas, nothing being cut off by
  the 128-byte buffer. Taken apart at the commas it has exactly these five fields; the
  first is a string of digits, the others are in fixed-point notation with 2, 3, 2 and 4
  decimals; and every character is a digit, a point or a comma.
\<close>

theorem notification_payload:
  assumes "reachable b" and "deviceConnected b" and "pCharacteristic b \<noteq> None"
    and "CALC_INTERVAL \<le> t - lastTime b"
  shows "\<exists>smp payload.
      snd (loop t b) = Some (smp, Some payload)
    \<and> pCharacteristic (fst (loop t b)) = Some payload
    \<and> pulses smp = pulseCount b
    \<and> payload = fmt_lu (pulses smp) @ '','' @ fmt_f 2 (frequency smp) @ '',''
        @ fmt_f 3 (flowRate (fst (loop t b))) @ '','' @ fmt_f 2 (volumeThisInterval_mL smp) @ '',''
        @ fmt_f 4 (totalVolume (fst (loop t b)))
    \<and> split_commas payload = [fmt_lu (pulses smp), fmt_f 2 (frequency smp),
        fmt_f 3 (flowRate (fst (loop t b))), fmt_f 2 (volumeThisInterval_mL smp),
        fmt_f 4 (totalVolume (fst (loop t b)))]
    \<and> is_unsigned (fmt_lu (pulses smp))
    \<and> is_fixed 2 (fmt_f 2 (frequency smp))
    \<and> is_fixed 3 (fmt_f 3 (flowRate (fst (loop t b))))
    \<and> is_fixed 2 (fmt_f 2 (volumeThisInterval_mL smp))
    \<and> is_fixed 4 (fmt_f 4 (totalVolume (fst (loop t b))))
    \<and> list_all (\<lambda>c. is_digit c \<or> c = CHR ''.'' \<or> c = CHR '','') payload"
proof -
  let ?es = "fdiv binary32 (of_ulong binary32 (t - lastTime b)) (Finite False 1000)"
  let ?c = "calculate (pulseCount b) ?es (b\<lparr>pulseCount := 0\<rparr>)"
  have inv: "flow_inv (b\<lparr>pulseCount := 0\<rparr>)"
    using reachable_flow_inv [OF assms(1)] by (simp add: flow_inv_def)
  obtain f r v tt where
    f: "frequency (fst ?c) = Finite False f" "0 \<le> f" "f \<le> 68719476736" and
    r: "flowRate (snd ?c) = Finite False r" "0 \<le> r" "r \<le> 68719476736" and
    v: "volumeThisInterval_mL (fst ?c) = Finite False v" "0 \<le> v" "v \<le> 34359738368" and
    tt: "totalVolume (snd ?c) = Finite False tt" "0 \<le> tt" "tt \<le> 1152921504606846976"
    using loop_values [OF inv assms(4), of "pulseCount b"] by blast
  note lr = loop_runs [OF assms(4)]
  note ln = loop_notifies [OF assms(4) assms(2) assms(3), unfolded lr(2,3) f(1) r(1) v(1) tt(1)]
  note pr = payload_record [OF f(2,3) r(2,3) v(2,3) tt(2,3), of "pulseCount b"]
  let ?p = "snprintf_payload 128 (pulseCount b) (Finite False f) (Finite False r) (Finite False v)
      (Finite False tt)"
  have 1: "snd (loop t b) = Some (fst ?c, Some ?p)" by (rule ln(1))
  have 2: "pCharacteristic (fst (loop t b)) = Some ?p" using ln(2) 1 by simp
  have 3: "pulses (fst ?c) = pulseCount b" by (rule calculate_sel)
  have 4: "flowRate (fst (loop t b)) = Finite False r" "totalVolume (fst (loop t b)) = Finite False tt"
    using lr(2,3) r(1) tt(1) by simp_all
  have 5: "is_unsigned (fmt_lu (pulseCount b))" by (rule fmt_lu_props)
  have 6: "is_fixed 2 (fmt_f 2 (Finite False f))" "is_fixed 3 (fmt_f 3 (Finite False r))"
    "is_fixed 2 (fmt_f 2 (Finite False v))" "is_fixed 4 (fmt_f 4 (Finite False tt))"
    by (rule fmt_f_fixed, simp)+
  show ?thesis
    using 1 2 5 6 pr
    by (intro exI [of _ "fst ?c"] exI [of _ ?p]) (simp add: 3 4 f(1) v(1) del: fmt_f.simps)
qed

theorem notification_payload_witness:
  "reachable (onConnect (pulseCounter (setup_sketch 0 ble_globals)))
   \<and> deviceConnected (onConnect (pulseCounter (setup_sketch 0 ble_globals)))
   \<and> pCharacteristic (onConnect (pulseCounter (setup_sketch 0 ble_globals))) \<noteq> None
   \<and> CALC_INTERVAL \<le> 1000 - lastTime (onConnect (pulseCounter (setup_sketch 0 ble_globals)))
   \<and> pCharacteristic (fst (loop 1000 (onConnect (pulseCounter (setup_sketch 0 ble_globals)))))
       = Some ''1,1.00,0.200,2.25,0.0022''
   \<and> split_commas ''1,1.00,0.200,2.25,0.0022'' = [''1'', ''1.00'', ''0.200'', ''2.25'', ''0.0022'']"
proof -
  let ?b = "onConnect (pulseCounter (setup_sketch 0 ble_globals))"
  from notification_payload [OF connected_state(1,2,3,4)] connected_run(3)
  obtain smp payload where
    s: "smp = \<lparr>pulses = 1, elapsedSeconds = Finite False 1, frequency = Finite False 1,
       volumeThisInterval_L = Finite False (2415919 / 1073741824),
       volumeThisInterval_mL = Finite False (9 / 4)\<rparr>" and
    p: "pCharacteristic (fst (loop 1000 ?b)) = Some payload" and
    e: "payload = fmt_lu (pulses smp) @ '','' @ fmt_f 2 (frequency smp) @ '',''
        @ fmt_f 3 (flowRate (fst (loop 1000 ?b))) @ '','' @ fmt_f 2 (volumeThisInterval_mL smp) @ '',''
        @ fmt_f 4 (totalVolume (fst (loop 1000 ?b)))" and
    c: "split_commas payload = [fmt_lu (pulses smp), fmt_f 2 (frequency smp),
        fmt_f 3 (flowRate (fst (loop 1000 ?b))), fmt_f 2 (volumeThisInterval_mL smp),
        fmt_f 4 (totalVolume (fst (loop 1000 ?b)))]"
    by auto
  have pe: "payload = ''1,1.00,0.200,2.25,0.0022''"
    unfolding e s connected_run(1,2) by (simp add: fmt_lu_1 payload_strings del: fmt_f.simps)
  have ce: "split_commas payload = [''1'', ''1.00'', ''0.200'', ''2.25'', ''0.0022'']"
    unfolding c s connected_run(1,2) by (simp add: fmt_lu_1 payload_strings del: fmt_f.simps)
  from p pe ce connected_state(1,2,3,4) show ?thesis by simp
qed

section \<open>The calibration factor and the volume\<close>

text \<open>
  C9. Two runs of the interval computation (and of \<^verbatim>\<open>loop\<close>) that differ only in the
  calibration factor, whatever the two factors are, produce the same sample (pulse
  count, elapsed time, frequency, interval volume in litres and in millilitres) and the
  same total; the resulting states differ at most in the flow rate and the factor itself.
\<close>

theorem calibration_affects_only_flowRate:
  fixes st :: "'a sketch_scheme" and b :: ble_sketch
  shows "fst (calculate p es (st\<lparr>calibrationFactor := c1\<rparr>))
      = fst (calculate p es (st\<lparr>calibrationFactor := c2\<rparr>))
    \<and> totalVolume (snd (calculate p es (st\<lparr>calibrationFactor := c1\<rparr>)))
      = totalVolume (snd (calculate p es (st\<lparr>calibrationFactor := c2\<rparr>)))
    \<and> (snd (calculate p es (st\<lparr>calibrationFactor := c1\<rparr>)))\<lparr>flowRate := r, calibrationFactor := c\<rparr>
      = (snd (calculate p es (st\<lparr>calibrationFactor := c2\<rparr>)))\<lparr>flowRate := r, calibrationFactor := c\<rparr>
    \<and> map_option fst (snd (loop t (b\<lparr>calibrationFactor := c1\<rparr>)))
      = map_option fst (snd (loop t (b\<lparr>calibrationFactor := c2\<rparr>)))
    \<and> totalVolume (fst (loop t (b\<lparr>calibrationFactor := c1\<rparr>)))
      = totalVolume (fst (loop t (b\<lparr>calibrationFactor := c2\<rparr>)))"
  by (simp add: calculate_def loop_def Let_def split: prod.splits option.splits)

theorem calibration_affects_only_flowRate_witness:
  "volumeThisInterval_L (fst (calculate 50 (Finite False 1) (globals\<lparr>calibrationFactor := Finite False 5\<rparr>)))
     = volumeThisInterval_L (fst (calculate 50 (Finite False 1) (globals\<lparr>calibrationFactor := Finite False 10\<rparr>)))
   \<and> totalVolume (snd (calculate 50 (Finite False 1) (globals\<lparr>calibrationFactor := Finite False 5\<rparr>)))
     = totalVolume (snd (calculate 50 (Finite False 1) (globals\<lparr>calibrationFactor := Finite False 10\<rparr>)))
   \<and> flowRate (snd (calculate 50 (Finite False 1) (globals\<lparr>calibrationFactor := Finite False 5\<rparr>)))
     = Finite False 10
   \<and> flowRate (snd (calculate 50 (Finite False 1) (globals\<lparr>calibrationFactor := Finite False 10\<rparr>)))
     = Finite False 5"
proof -
  have pos: "fp_gt (Finite False 1) zero" by (simp add: fp_gt_def zero_def sval_def)
  have f: "frequency (fst (calculate 50 (Finite False 1) st)) = Finite False 50"
    for st :: sketch
    by (simp only: calculate_sel pos if_True of_ulong_50 scenario_values)
  have q: "fdiv binary32 (Finite False 50) (Finite False 10) = Finite False 5" by code_simp
  have r5: "flowRate (snd (calculate 50 (Finite False 1) (globals\<lparr>calibrationFactor := Finite False 5\<rparr>)))
      = Finite False 10"
    by (simp add: calculate_sel(6) f scenario_values del: fdiv.simps)
  have r10: "flowRate (snd (calculate 50 (Finite False 1) (globals\<lparr>calibrationFactor := Finite False 10\<rparr>)))
      = Finite False 5"
    by (simp add: calculate_sel(6) f q del: fdiv.simps)
  from calibration_affects_only_flowRate
    [where p = 50 and es = "Finite False 1" and st = globals
       and ?c1.0 = "Finite False 5" and ?c2.0 = "Finite False 10"]
  show ?thesis using r5 r10 by simp
qed

section \<open>An interval without elapsed time\<close>




end
